theory Spec2Isabelle
  imports Main "HOL-Library.Word" "HOL-Library.Monad_Syntax"
begin

unbundle bit_operations_syntax

section \<open>FarmGPS: the data model\<close>

text \<open>
  A shallow embedding of \<^verbatim>\<open>FarmGPS.h\<close> and \<^verbatim>\<open>FarmGPS.cpp\<close>. A \<^verbatim>\<open>char\<close> or
  \<^verbatim>\<open>byte\<close> is an 8-bit word, an \<^verbatim>\<open>unsigned long\<close> a 32-bit word. What the
  C++ leaves to the target is a parameter of the model:
  \<^item> whether plain \<^verbatim>\<open>char\<close> is signed (\<open>char_signed\<close>; it is on AVR, where the
    label \<^verbatim>\<open>case 191\<close> of \<^verbatim>\<open>decode\<close> can then never be taken);
  \<^item> the width of \<^verbatim>\<open>int\<close>, the type parameter \<open>'w\<close> of the accumulator
    \<^verbatim>\<open>sum\<close> (arithmetic on it wraps around);
  \<^item> the type \<open>'f\<close> of \<^verbatim>\<open>float\<close> values with the operations on it that the code
    uses, and the library functions \<^verbatim>\<open>atof\<close> and \<^verbatim>\<open>atoi\<close>.
  The value \<^verbatim>\<open>millis()\<close> returns during a call is an argument of that call.
\<close>

type_synonym byte = "8 word"

datatype types = GGA | VTG | XTE | XTE2 | OTHER

record 'f platform =
  char_signed :: bool
  atof :: "byte list \<Rightarrow> 'f"
  atoi :: "byte list \<Rightarrow> int"
  f_neg :: "'f \<Rightarrow> 'f"
  f_add :: "'f \<Rightarrow> 'f \<Rightarrow> 'f"
  f_sub :: "'f \<Rightarrow> 'f \<Rightarrow> 'f"
  f_div :: "'f \<Rightarrow> 'f \<Rightarrow> 'f"
  f_of_int :: "int \<Rightarrow> 'f"
  f_trunc :: "'f \<Rightarrow> int"
  f_invalid :: "'f"

text \<open>
  The data members of class \<^verbatim>\<open>FarmGPS\<close>. The member \<^verbatim>\<open>term\<close> is \<open>term_buf\<close> and
  the member \<^verbatim>\<open>sum\<close> is \<open>sum_acc\<close> here. The members no function reads or writes
  (\<^verbatim>\<open>new_date\<close>, \<^verbatim>\<open>new_GGA_fix\<close>, \<^verbatim>\<open>new_VTG_fix\<close>, \<^verbatim>\<open>new_XTE_fix\<close>) are left
  out. The statistics members are declared in the header under
  \<^verbatim>\<open>#ifndef _GPS_NO_STATS\<close>, a macro nothing defines, so they exist.
\<close>

record (overloaded) ('f, 'w) FarmGPS =
  time :: 'f
  new_time :: 'f
  date :: "32 word"
  latitude :: 'f
  new_latitude :: 'f
  longitude :: 'f
  new_longitude :: 'f
  altitude :: 'f
  new_altitude :: 'f
  speed :: 'f
  new_speed :: 'f
  course :: 'f
  new_course :: 'f
  xte :: 'f
  new_xte :: 'f
  quality :: int
  new_quality :: int
  last_GGA_fix :: "32 word"
  last_VTG_fix :: "32 word"
  last_XTE_fix :: "32 word"
  new_GGA_data :: bool
  new_VTG_data :: bool
  new_XTE_data :: bool
  term_buf :: "byte list"
  term_number :: byte
  term_offset :: byte
  parity :: byte
  checksum :: byte
  sum_acc :: "'w word"
  is_checksum_term :: bool
  sentence_type :: types
  encoded_characters :: "32 word"
  good_sentences :: "32 word"
  failed_checksum :: "32 word"
  passed_checksum :: "32 word"

text \<open>The macros of \<^verbatim>\<open>FarmGPS.h\<close>. \<^verbatim>\<open>GPS_NO_STATS\<close> is defined there.\<close>

definition GPS_NO_STATS :: bool where
  "GPS_NO_STATS = True"

definition ascii :: "string \<Rightarrow> byte list" where
  "ascii cs = map (\<lambda>c. of_nat (of_char c)) cs"

definition c_literal :: "string \<Rightarrow> byte list" where
  \<comment> \<open>a string literal: its characters and the terminating NUL\<close>
  "c_literal cs = ascii cs @ [0]"

definition GPGGA_TERM :: "byte list" where
  "GPGGA_TERM = c_literal ''GPGGA''"

definition GPVTG_TERM :: "byte list" where
  "GPVTG_TERM = c_literal ''GPVTG''"

definition GPXTE_TERM :: "byte list" where
  "GPXTE_TERM = c_literal ''GPXTE''"

definition ROXTE_TERM :: "byte list" where
  "ROXTE_TERM = c_literal ''ROXTE''"

definition GPS_INVALID_LONG :: "32 word" where
  "GPS_INVALID_LONG = 0xFFFFFFFF"

definition TERM_SIZE :: nat where
  \<comment> \<open>\<^verbatim>\<open>sizeof (term)\<close>, from \<^verbatim>\<open>char term[20]\<close>\<close>
  "TERM_SIZE = 20"

section \<open>Memory accesses\<close>

text \<open>
  An array is a list, an index a C \<^verbatim>\<open>int\<close>. A read or write outside the array is
  undefined behaviour in C++; in the model it is the result \<open>None\<close>, which every caller
  passes on.
\<close>

definition rd :: "byte list \<Rightarrow> int \<Rightarrow> byte option" where
  "rd t i = (if 0 \<le> i \<and> i < int (length t) then Some (t ! nat i) else None)"

definition wr :: "byte list \<Rightarrow> int \<Rightarrow> byte \<Rightarrow> byte list option" where
  "wr t i v = (if 0 \<le> i \<and> i < int (length t) then Some (t[nat i := v]) else None)"

definition c_str :: "byte list \<Rightarrow> byte list option" where
  \<comment> \<open>the NUL-terminated string a library function reads from the start of an array\<close>
  "c_str t = (if 0 \<in> set t then Some (takeWhile (\<lambda>b. b \<noteq> 0) t) else None)"

section \<open>Private member functions\<close>

definition FarmGPS_init :: "'f platform \<Rightarrow> ('f, 'w::len) FarmGPS \<Rightarrow> ('f, 'w) FarmGPS" where
  \<comment> \<open>the constructor, run on the object's memory \<open>m\<close>: members it does not assign keep
      what the memory held\<close>
  "FarmGPS_init P m =
    (let s = m\<lparr>time := f_invalid P, date := GPS_INVALID_LONG, latitude := f_invalid P,
               longitude := f_invalid P, altitude := f_invalid P, speed := f_invalid P,
               course := f_invalid P, xte := f_invalid P, quality := 0,
               last_GGA_fix := 0, last_VTG_fix := 0, last_XTE_fix := 0,
               term_buf := (term_buf m)[0 := 0], term_number := 0, term_offset := 0,
               parity := 0, sum_acc := 0, checksum := 0, is_checksum_term := False,
               sentence_type := OTHER\<rparr>
     in if GPS_NO_STATS then s
        else s\<lparr>encoded_characters := 0, good_sentences := 0, failed_checksum := 0,
               passed_checksum := 0\<rparr>)"

text \<open>
  A function that takes a \<^verbatim>\<open>const char *\<close> takes the array it points into; the
  library functions read the string at its start.
\<close>

definition parse_decimal :: "'f platform \<Rightarrow> byte list \<Rightarrow> 'f option" where
  "parse_decimal P s = do { str \<leftarrow> c_str s; Some (atof P str) }"

definition parse_degrees :: "'f platform \<Rightarrow> 'w::len itself \<Rightarrow> byte list \<Rightarrow> 'f option" where
  \<comment> \<open>\<^verbatim>\<open>_left * 100\<close> is a product in \<^verbatim>\<open>int\<close>, of the width \<open>'w\<close>, and wraps around\<close>
  "parse_degrees P w s =
    do {
      str \<leftarrow> c_str s;
      Some (let f = atof P str;
                left = f_trunc P (f_div P f (f_of_int P 100));
                right = f_sub P f (f_of_int P (sint (word_of_int left * 100 :: 'w word)))
            in f_add P (f_of_int P left) (f_div P right (f_of_int P 60)))
    }"

fun strcmp :: "byte list \<Rightarrow> byte list \<Rightarrow> bool option" where
  "strcmp (a # as) (b # bs) =
     (if a = b then (if a = 0 then Some True else strcmp as bs) else Some False)"
| "strcmp _ _ = None"

definition parse_integer :: "'f platform \<Rightarrow> byte list \<Rightarrow> int option" where
  "parse_integer P s = do { str \<leftarrow> c_str s; Some (atoi P str) }"

definition char_val :: "'f platform \<Rightarrow> byte \<Rightarrow> int" where
  \<comment> \<open>the value of a \<^verbatim>\<open>char\<close> promoted to \<^verbatim>\<open>int\<close>\<close>
  "char_val P c = (if char_signed P then sint c else uint c)"

definition hex_to_int :: "'f platform \<Rightarrow> byte \<Rightarrow> int" where
  "hex_to_int P c =
    (if char_val P c \<ge> 65 \<and> char_val P c \<le> 70 then char_val P c - 65 + 10
     else if char_val P c \<ge> 97 \<and> char_val P c \<le> 102 then char_val P c - 97 + 10
     else char_val P c - 48)"

definition stat_good :: "('f, 'w::len) FarmGPS \<Rightarrow> ('f, 'w) FarmGPS" where
  "stat_good s = (if GPS_NO_STATS then s else s\<lparr>good_sentences := good_sentences s + 1\<rparr>)"

definition stat_failed :: "('f, 'w::len) FarmGPS \<Rightarrow> ('f, 'w) FarmGPS" where
  "stat_failed s = (if GPS_NO_STATS then s else s\<lparr>failed_checksum := failed_checksum s + 1\<rparr>)"

definition commit :: "32 word \<Rightarrow> ('f, 'w::len) FarmGPS \<Rightarrow> ('f, 'w) FarmGPS" where
  \<comment> \<open>the \<^verbatim>\<open>switch (sentence_type)\<close> of a passed checksum; \<open>now\<close> is \<^verbatim>\<open>millis()\<close>\<close>
  "commit now s =
    (case sentence_type s of
       GGA \<Rightarrow> s\<lparr>altitude := new_altitude s, time := new_time s, latitude := new_latitude s,
                 longitude := new_longitude s, quality := new_quality s,
                 last_GGA_fix := now, new_GGA_data := True\<rparr>
     | VTG \<Rightarrow> s\<lparr>course := new_course s, speed := new_speed s, last_VTG_fix := now,
                 new_VTG_data := True\<rparr>
     | XTE \<Rightarrow> s\<lparr>xte := new_xte s, last_XTE_fix := now, new_XTE_data := True\<rparr>
     | XTE2 \<Rightarrow> s\<lparr>xte := new_xte s, last_XTE_fix := now, new_XTE_data := True\<rparr>
     | OTHER \<Rightarrow> s)"

definition classify :: "('f, 'w::len) FarmGPS \<Rightarrow> ('f, 'w) FarmGPS option" where
  \<comment> \<open>term 0: the chain of \<^verbatim>\<open>strcmp\<close> tests (no \<^verbatim>\<open>GPRMC_TERM\<close> is defined)\<close>
  "classify s =
    do {
      g \<leftarrow> strcmp (term_buf s) GPGGA_TERM;
      if g then Some (s\<lparr>sentence_type := GGA\<rparr>)
      else do {
        v \<leftarrow> strcmp (term_buf s) GPVTG_TERM;
        if v then Some (s\<lparr>sentence_type := VTG\<rparr>)
        else do {
          x \<leftarrow> strcmp (term_buf s) GPXTE_TERM;
          if x then Some (s\<lparr>sentence_type := XTE\<rparr>)
          else do {
            r \<leftarrow> strcmp (term_buf s) ROXTE_TERM;
            if r then Some (s\<lparr>sentence_type := XTE2\<rparr>)
            else Some (s\<lparr>sentence_type := OTHER\<rparr>)
          }
        }
      }
    }"

definition extract_term :: "'f platform \<Rightarrow> ('f, 'w::len) FarmGPS \<Rightarrow> ('f, 'w) FarmGPS option" where
  \<comment> \<open>the \<^verbatim>\<open>switch (sentence_type)\<close> over a filled term\<close>
  "extract_term P s =
    (case sentence_type s of
       GGA \<Rightarrow>
         (if term_number s = 1 then
            do { x \<leftarrow> parse_decimal P (term_buf s); Some (s\<lparr>new_time := x\<rparr>) }
          else if term_number s = 2 then
            do { x \<leftarrow> parse_degrees P TYPE('w) (term_buf s); Some (s\<lparr>new_latitude := x\<rparr>) }
          else if term_number s = 3 then
            do {
              t0 \<leftarrow> rd (term_buf s) 0;
              Some (if t0 = 0x53 then s\<lparr>new_latitude := f_neg P (new_latitude s)\<rparr> else s)
            }
          else if term_number s = 4 then
            do { x \<leftarrow> parse_degrees P TYPE('w) (term_buf s); Some (s\<lparr>new_longitude := x\<rparr>) }
          else if term_number s = 5 then
            do {
              t0 \<leftarrow> rd (term_buf s) 0;
              Some (if t0 = 0x57 then s\<lparr>new_longitude := f_neg P (new_longitude s)\<rparr> else s)
            }
          else if term_number s = 6 then
            do { x \<leftarrow> parse_integer P (term_buf s); Some (s\<lparr>new_quality := x\<rparr>) }
          else if term_number s = 9 then
            do { x \<leftarrow> parse_decimal P (term_buf s); Some (s\<lparr>new_altitude := x\<rparr>) }
          else Some s)
     | VTG \<Rightarrow>
         (if term_number s = 1 then
            do { x \<leftarrow> parse_decimal P (term_buf s); Some (s\<lparr>new_course := x\<rparr>) }
          else if term_number s = 5 then
            do { x \<leftarrow> parse_decimal P (term_buf s); Some (s\<lparr>new_speed := x\<rparr>) }
          else Some s)
     | XTE \<Rightarrow>
         (if term_number s = 3 then
            do { x \<leftarrow> parse_decimal P (term_buf s); Some (s\<lparr>new_xte := x\<rparr>) }
          else Some s)
     | XTE2 \<Rightarrow>
         (if term_number s = 1 then
            do { x \<leftarrow> parse_decimal P (term_buf s); Some (s\<lparr>new_xte := x\<rparr>) }
          else Some s)
     | OTHER \<Rightarrow> Some s)"

definition parse_term ::
  "'f platform \<Rightarrow> 32 word \<Rightarrow> ('f, 'w::len) FarmGPS \<Rightarrow> (bool \<times> ('f, 'w) FarmGPS) option" where
  "parse_term P now s =
    (if is_checksum_term s then
       do {
         s1 \<leftarrow> (if sentence_type s = XTE2 then Some (s\<lparr>checksum := parity s\<rparr>)
                else do {
                  t0 \<leftarrow> rd (term_buf s) 0;
                  t1 \<leftarrow> rd (term_buf s) 1;
                  Some (s\<lparr>checksum := word_of_int (16 * hex_to_int P t0 + hex_to_int P t1)\<rparr>)
                });
         if checksum s1 = parity s1 then Some (True, commit now (stat_good s1))
         else Some (False, stat_failed s1)
       }
     else if term_number s = 0 then
       do { s1 \<leftarrow> classify s; Some (False, s1) }
     else
       do {
         t0 \<leftarrow> rd (term_buf s) 0;
         if t0 \<noteq> 0 then
           do { s1 \<leftarrow> extract_term P s; Some (False, s1) }
         else Some (False, s)
       })"

section \<open>Public member functions\<close>

definition ordinary :: "byte \<Rightarrow> ('f, 'w::len) FarmGPS \<Rightarrow> (bool \<times> ('f, 'w) FarmGPS) option" where
  \<comment> \<open>the \<^verbatim>\<open>default\<close> label of \<^verbatim>\<open>decode\<close>: ordinary characters\<close>
  "ordinary c s =
    do {
      s1 \<leftarrow> (if unat (term_offset s) < TERM_SIZE - 1 then
               do {
                 t \<leftarrow> wr (term_buf s) (uint (term_offset s)) c;
                 Some (s\<lparr>term_buf := t, term_offset := term_offset s + 1\<rparr>)
               }
             else Some s);
      let s2 = (if \<not> is_checksum_term s1 then s1\<lparr>parity := parity s1 XOR c\<rparr> else s1);
      Some (False, s2\<lparr>sum_acc := sum_acc s2 + ucast c\<rparr>)
    }"

definition trimble_end :: "'f platform \<Rightarrow> 32 word \<Rightarrow> byte \<Rightarrow> ('f, 'w::len) FarmGPS \<Rightarrow> (bool \<times> ('f, 'w) FarmGPS) option" where
  \<comment> \<open>the label \<^verbatim>\<open>case 3\<close> of \<^verbatim>\<open>decode\<close>; the index \<^verbatim>\<open>term_offset - 1\<close> is computed
      in \<^verbatim>\<open>int\<close> and can be negative\<close>
  "trimble_end P now c s =
    do {
      p1 \<leftarrow> rd (term_buf s) (uint (term_offset s) - 1);
      if p1 = 16 \<and> \<not> is_checksum_term s then
        do {
          a1 \<leftarrow> rd (term_buf s) (uint (term_offset s) - 1);
          a2 \<leftarrow> rd (term_buf s) (uint (term_offset s) - 2);
          a3 \<leftarrow> rd (term_buf s) (uint (term_offset s) - 3);
          let s1 = s\<lparr>sum_acc := sum_acc s - ucast a1 - ucast a2 - ucast a3\<rparr>;
          b2 \<leftarrow> rd (term_buf s1) (uint (term_offset s1) - 2);
          b3 \<leftarrow> rd (term_buf s1) (uint (term_offset s1) - 3);
          if sum_acc s1 - ucast b2 - 256 * ucast b3 = 0 then
            do {
              t \<leftarrow> wr (term_buf s1) (uint (term_offset s1) - 3) 0;
              (u, s2) \<leftarrow> parse_term P now (s1\<lparr>term_buf := t\<rparr>);
              (v, s3) \<leftarrow> parse_term P now (s2\<lparr>is_checksum_term := True\<rparr>);
              Some (v, s3\<lparr>term_number := term_number s3 + 1, term_offset := 0\<rparr>)
            }
          else Some (False, s1\<lparr>term_number := term_number s1 + 1, term_offset := 0\<rparr>)
        }
      else ordinary c s
    }"

definition terminator :: "'f platform \<Rightarrow> 32 word \<Rightarrow> byte \<Rightarrow> ('f, 'w::len) FarmGPS \<Rightarrow> (bool \<times> ('f, 'w) FarmGPS) option" where
  \<comment> \<open>the labels \<^verbatim>\<open>','\<close> (which falls through), \<^verbatim>\<open>':'\<close>, \<^verbatim>\<open>'*'\<close>, CR and LF\<close>
  "terminator P now c s =
    do {
      let s1 = (if c = 0x2C then s\<lparr>parity := parity s XOR c\<rparr> else s);
      let s2 = s1\<lparr>sum_acc := sum_acc s1 + ucast c\<rparr>;
      t \<leftarrow> wr (term_buf s2) (uint (term_offset s2)) 0;
      (v, s3) \<leftarrow> parse_term P now (s2\<lparr>term_buf := t\<rparr>);
      Some (v, s3\<lparr>term_number := term_number s3 + 1, term_offset := 0,
                  is_checksum_term := (c = 0x2A)\<rparr>)
    }"

definition decode :: "'f platform \<Rightarrow> 32 word \<Rightarrow> byte \<Rightarrow> ('f, 'w::len) FarmGPS \<Rightarrow> (bool \<times> ('f, 'w) FarmGPS) option" where
  "decode P now c s0 =
    (let s = s0\<lparr>encoded_characters := encoded_characters s0 + 1\<rparr> in
     if c = 191 \<and> \<not> char_signed P then
       Some (False, s\<lparr>term_number := 0, term_offset := 0, sum_acc := 0\<rparr>)
     else if c = 0x24 \<or> c = 0x40 then
       Some (False, s\<lparr>term_number := 0, term_offset := 0, parity := 0,
                      sum_acc := sum_acc s + ucast c, sentence_type := OTHER,
                      is_checksum_term := False\<rparr>)
     else if c = 20 \<or> c = 0 \<or> c = 0x20 then
       Some (False, s\<lparr>sum_acc := sum_acc s + ucast c\<rparr>)
     else if c = 0x2C \<or> c = 0x3A \<or> c = 0x2A \<or> c = 0x0D \<or> c = 0x0A then
       terminator P now c s
     else if c = 3 then trimble_end P now c s
     else ordinary c s)"

text \<open>The inline accessors of the header that change the object.\<close>

definition got_new_GGA_data :: "('f, 'w::len) FarmGPS \<Rightarrow> bool \<times> ('f, 'w) FarmGPS" where
  "got_new_GGA_data s = (new_GGA_data s, s\<lparr>new_GGA_data := False\<rparr>)"

definition got_new_VTG_data :: "('f, 'w::len) FarmGPS \<Rightarrow> bool \<times> ('f, 'w) FarmGPS" where
  "got_new_VTG_data s = (new_VTG_data s, s\<lparr>new_VTG_data := False\<rparr>)"

definition got_new_XTE_data :: "('f, 'w::len) FarmGPS \<Rightarrow> bool \<times> ('f, 'w) FarmGPS" where
  "got_new_XTE_data s = (new_XTE_data s, s\<lparr>new_XTE_data := False\<rparr>)"

section \<open>Byte streams\<close>

text \<open>
  The caller feeds \<^verbatim>\<open>decode\<close> one byte at a time. An input event is the byte together
  with the value \<^verbatim>\<open>millis()\<close> has during that call; \<open>feed\<close> returns the results of the
  calls in order and the final state, or \<open>None\<close> when a call left the term buffer.
\<close>

fun feed :: "'f platform \<Rightarrow> (byte \<times> 32 word) list \<Rightarrow> ('f, 'w::len) FarmGPS \<Rightarrow> (bool list \<times> ('f, 'w) FarmGPS) option" where
  "feed P [] s = Some ([], s)"
| "feed P ((c, now) # es) s =
     do {
       (v, s1) \<leftarrow> decode P now c s;
       (vs, s2) \<leftarrow> feed P es s1;
       Some (v # vs, s2)
     }"

section \<open>The members before the term buffer\<close>

text \<open>
  The label \<^verbatim>\<open>case 3\<close> of \<^verbatim>\<open>decode\<close> indexes \<^verbatim>\<open>term\<close> below 0 when fewer than
  three bytes are buffered. \<^verbatim>\<open>FarmGPS.h\<close> declares, one after the other and under the
  same access specifier, \<^verbatim>\<open>boolean new_GGA_data\<close>, \<^verbatim>\<open>boolean new_VTG_data\<close>,
  \<^verbatim>\<open>boolean new_XTE_data\<close> and \<^verbatim>\<open>char term[20]\<close>. Members are allocated in the order
  of their declaration and each flag is one byte, so in the object \<^verbatim>\<open>term[-1]\<close> is
  \<^verbatim>\<open>new_XTE_data\<close>, \<^verbatim>\<open>term[-2]\<close> is \<^verbatim>\<open>new_VTG_data\<close> and \<^verbatim>\<open>term[-3]\<close> is
  \<^verbatim>\<open>new_GGA_data\<close>. The functions below are \<^verbatim>\<open>trimble_end\<close>, \<^verbatim>\<open>decode\<close> and \<open>feed\<close>
  with these three bytes of the object in reach of the index: a flag reads as 1 when set
  and as 0 otherwise, and a byte stored there sets the flag unless the byte is 0. An index
  below -3 or from 20 on is still the result \<open>None\<close>. With each result \<open>feed_object\<close>
  records the three flags as the call left them.
\<close>

definition flag_byte :: "bool \<Rightarrow> byte" where
  "flag_byte b = (if b then 1 else 0)"

definition rd_object :: "('f, 'w::len) FarmGPS \<Rightarrow> int \<Rightarrow> byte option" where
  "rd_object s i =
    (if i = - 1 then Some (flag_byte (new_XTE_data s))
     else if i = - 2 then Some (flag_byte (new_VTG_data s))
     else if i = - 3 then Some (flag_byte (new_GGA_data s))
     else rd (term_buf s) i)"

definition wr_object :: "('f, 'w::len) FarmGPS \<Rightarrow> int \<Rightarrow> byte \<Rightarrow> ('f, 'w) FarmGPS option" where
  "wr_object s i v =
    (if i = - 1 then Some (s\<lparr>new_XTE_data := (v \<noteq> 0)\<rparr>)
     else if i = - 2 then Some (s\<lparr>new_VTG_data := (v \<noteq> 0)\<rparr>)
     else if i = - 3 then Some (s\<lparr>new_GGA_data := (v \<noteq> 0)\<rparr>)
     else do { t \<leftarrow> wr (term_buf s) i v; Some (s\<lparr>term_buf := t\<rparr>) })"

definition trimble_end_object :: "'f platform \<Rightarrow> 32 word \<Rightarrow> byte \<Rightarrow> ('f, 'w::len) FarmGPS \<Rightarrow> (bool \<times> ('f, 'w) FarmGPS) option" where
  "trimble_end_object P now c s =
    do {
      p1 \<leftarrow> rd_object s (uint (term_offset s) - 1);
      if p1 = 16 \<and> \<not> is_checksum_term s then
        do {
          a1 \<leftarrow> rd_object s (uint (term_offset s) - 1);
          a2 \<leftarrow> rd_object s (uint (term_offset s) - 2);
          a3 \<leftarrow> rd_object s (uint (term_offset s) - 3);
          let s1 = s\<lparr>sum_acc := sum_acc s - ucast a1 - ucast a2 - ucast a3\<rparr>;
          b2 \<leftarrow> rd_object s1 (uint (term_offset s1) - 2);
          b3 \<leftarrow> rd_object s1 (uint (term_offset s1) - 3);
          if sum_acc s1 - ucast b2 - 256 * ucast b3 = 0 then
            do {
              s2 \<leftarrow> wr_object s1 (uint (term_offset s1) - 3) 0;
              (u, s3) \<leftarrow> parse_term P now s2;
              (v, s4) \<leftarrow> parse_term P now (s3\<lparr>is_checksum_term := True\<rparr>);
              Some (v, s4\<lparr>term_number := term_number s4 + 1, term_offset := 0\<rparr>)
            }
          else Some (False, s1\<lparr>term_number := term_number s1 + 1, term_offset := 0\<rparr>)
        }
      else ordinary c s
    }"

definition decode_object :: "'f platform \<Rightarrow> 32 word \<Rightarrow> byte \<Rightarrow> ('f, 'w::len) FarmGPS \<Rightarrow> (bool \<times> ('f, 'w) FarmGPS) option" where
  "decode_object P now c s0 =
    (let s = s0\<lparr>encoded_characters := encoded_characters s0 + 1\<rparr> in
     if c = 191 \<and> \<not> char_signed P then
       Some (False, s\<lparr>term_number := 0, term_offset := 0, sum_acc := 0\<rparr>)
     else if c = 0x24 \<or> c = 0x40 then
       Some (False, s\<lparr>term_number := 0, term_offset := 0, parity := 0,
                      sum_acc := sum_acc s + ucast c, sentence_type := OTHER,
                      is_checksum_term := False\<rparr>)
     else if c = 20 \<or> c = 0 \<or> c = 0x20 then
       Some (False, s\<lparr>sum_acc := sum_acc s + ucast c\<rparr>)
     else if c = 0x2C \<or> c = 0x3A \<or> c = 0x2A \<or> c = 0x0D \<or> c = 0x0A then
       terminator P now c s
     else if c = 3 then trimble_end_object P now c s
     else ordinary c s)"

fun feed_object :: "'f platform \<Rightarrow> (byte \<times> 32 word) list \<Rightarrow> ('f, 'w::len) FarmGPS \<Rightarrow> ((bool \<times> bool \<times> bool \<times> bool) list \<times> ('f, 'w) FarmGPS) option" where
  "feed_object P [] s = Some ([], s)"
| "feed_object P ((c, now) # es) s =
     do {
       (v, s1) \<leftarrow> decode_object P now c s;
       (vs, s2) \<leftarrow> feed_object P es s1;
       Some ((v, new_GGA_data s1, new_VTG_data s1, new_XTE_data s1) # vs, s2)
     }"

section \<open>Notions used in the properties\<close>

text \<open>
  The term buffer has its declared size and the write cursor lies inside it. The
  constructor establishes this and every call of \<^verbatim>\<open>decode\<close> that returns keeps it.
\<close>

definition wf :: "('f, 'w::len) FarmGPS \<Rightarrow> bool" where
  "wf s \<longleftrightarrow> length (term_buf s) = TERM_SIZE \<and> unat (term_offset s) < TERM_SIZE"

text \<open>
  The published fields: what the accessors of the header return, with the three last-fix
  timestamps and the three new-data flags.
\<close>

definition published ::
  "('f, 'w::len) FarmGPS \<Rightarrow>
     'f \<times> 32 word \<times> 'f \<times> 'f \<times> 'f \<times> int \<times> 'f \<times> 'f \<times> 'f \<times> 32 word \<times> 32 word \<times> 32 word \<times>
     bool \<times> bool \<times> bool" where
  "published s = (time s, date s, latitude s, longitude s, altitude s, quality s,
     course s, speed s, xte s, last_GGA_fix s, last_VTG_fix s, last_XTE_fix s,
     new_GGA_data s, new_VTG_data s, new_XTE_data s)"

text \<open>The parsing state and the counters, and the shadow fields with the sentence type.\<close>

definition machine ::
  "('f, 'w::len) FarmGPS \<Rightarrow>
     byte list \<times> byte \<times> byte \<times> byte \<times> byte \<times> 'w word \<times> bool \<times> 32 word \<times> 32 word \<times> 32 word \<times>
     32 word" where
  "machine s = (term_buf s, term_number s, term_offset s, parity s, checksum s, sum_acc s,
     is_checksum_term s, encoded_characters s, good_sentences s, failed_checksum s,
     passed_checksum s)"

definition shadow ::
  "('f, 'w::len) FarmGPS \<Rightarrow> 'f \<times> 'f \<times> 'f \<times> 'f \<times> int \<times> 'f \<times> 'f \<times> 'f \<times> types" where
  "shadow s = (new_time s, new_latitude s, new_longitude s, new_altitude s, new_quality s,
     new_course s, new_speed s, new_xte s, sentence_type s)"

definition bump :: "('f, 'w::len) FarmGPS \<Rightarrow> ('f, 'w) FarmGPS" where
  \<comment> \<open>\<^verbatim>\<open>encoded_characters++\<close>, the first statement of \<^verbatim>\<open>decode\<close>\<close>
  "bump s = s\<lparr>encoded_characters := encoded_characters s + 1\<rparr>"

text \<open>
  The sentence type of a first token as the specification words it: equality of the whole
  token with one of the four prefixes.
\<close>

definition token_type :: "byte list \<Rightarrow> types" where
  "token_type tok =
    (if tok = ascii ''GPGGA'' then GGA
     else if tok = ascii ''GPVTG'' then VTG
     else if tok = ascii ''GPXTE'' then XTE
     else if tok = ascii ''ROXTE'' then XTE2
     else OTHER)"

text \<open>
  Classes of bytes, by the label of \<^verbatim>\<open>decode\<close> they reach. An ordinary byte reaches
  the \<^verbatim>\<open>default\<close> label on every platform. A payload byte is any byte that neither
  starts a sentence or frame, nor starts the checksum token, nor is the byte 3. An end byte
  is a term terminator other than the comma.
\<close>

definition ordinary_byte :: "byte \<Rightarrow> bool" where
  "ordinary_byte c \<longleftrightarrow> c \<noteq> 191 \<and> c \<noteq> 0x24 \<and> c \<noteq> 0x40 \<and> c \<noteq> 20 \<and> c \<noteq> 0 \<and> c \<noteq> 0x20 \<and>
     c \<noteq> 0x2C \<and> c \<noteq> 0x3A \<and> c \<noteq> 0x2A \<and> c \<noteq> 0x0D \<and> c \<noteq> 0x0A \<and> c \<noteq> 3"

definition payload_byte :: "byte \<Rightarrow> bool" where
  "payload_byte c \<longleftrightarrow> c \<noteq> 0x24 \<and> c \<noteq> 0x40 \<and> c \<noteq> 0x2A \<and> c \<noteq> 3 \<and> c \<noteq> 191"

definition end_byte :: "byte \<Rightarrow> bool" where
  "end_byte c \<longleftrightarrow> c = 0x0D \<or> c = 0x0A \<or> c = 0x3A \<or> c = 0x2A"

text \<open>
  The checksum domain: the comma and the ordinary bytes. \<open>xor_run p bs\<close> is the XOR of
  \<open>p\<close> with the bytes of \<open>bs\<close> that are in the domain.
\<close>

definition in_domain :: "byte \<Rightarrow> bool" where
  "in_domain c \<longleftrightarrow> c = 0x2C \<or> ordinary_byte c"

fun xor_run :: "byte \<Rightarrow> byte list \<Rightarrow> byte" where
  "xor_run p [] = p"
| "xor_run p (c # cs) = xor_run (if in_domain c then p XOR c else p) cs"

text \<open>
  The published fields by sentence type, and what a passed checksum leaves behind: the
  group of the sentence's type holds the shadow values, the time \<open>now\<close> and a set flag,
  every other published field is what it was in the state \<open>s\<close> before.
\<close>

definition gga_group :: "('f, 'w::len) FarmGPS \<Rightarrow> 'f \<times> 'f \<times> 'f \<times> 'f \<times> int \<times> 32 word \<times> bool" where
  "gga_group s = (time s, latitude s, longitude s, altitude s, quality s, last_GGA_fix s,
     new_GGA_data s)"

definition vtg_group :: "('f, 'w::len) FarmGPS \<Rightarrow> 'f \<times> 'f \<times> 32 word \<times> bool" where
  "vtg_group s = (course s, speed s, last_VTG_fix s, new_VTG_data s)"

definition xte_group :: "('f, 'w::len) FarmGPS \<Rightarrow> 'f \<times> 32 word \<times> bool" where
  "xte_group s = (xte s, last_XTE_fix s, new_XTE_data s)"

definition committed :: "32 word \<Rightarrow> ('f, 'w::len) FarmGPS \<Rightarrow> ('f, 'w) FarmGPS \<Rightarrow> bool" where
  "committed now s s' \<longleftrightarrow>
    date s' = date s \<and>
    (case sentence_type s' of
       GGA \<Rightarrow> gga_group s' = (new_time s', new_latitude s', new_longitude s', new_altitude s',
                   new_quality s', now, True) \<and>
              vtg_group s' = vtg_group s \<and> xte_group s' = xte_group s
     | VTG \<Rightarrow> vtg_group s' = (new_course s', new_speed s', now, True) \<and>
              gga_group s' = gga_group s \<and> xte_group s' = xte_group s
     | XTE \<Rightarrow> xte_group s' = (new_xte s', now, True) \<and>
              gga_group s' = gga_group s \<and> vtg_group s' = vtg_group s
     | XTE2 \<Rightarrow> xte_group s' = (new_xte s', now, True) \<and>
              gga_group s' = gga_group s \<and> vtg_group s' = vtg_group s
     | OTHER \<Rightarrow> gga_group s' = gga_group s \<and> vtg_group s' = vtg_group s \<and>
              xte_group s' = xte_group s)"

text \<open>
  The binary frame trailer, read back from the write cursor: the byte before the cursor,
  the two bytes of the sum before it, and the sum without these three bytes.
\<close>

definition trailer_hi :: "('f, 'w::len) FarmGPS \<Rightarrow> byte" where
  "trailer_hi s = term_buf s ! (unat (term_offset s) - 3)"

definition trailer_lo :: "('f, 'w::len) FarmGPS \<Rightarrow> byte" where
  "trailer_lo s = term_buf s ! (unat (term_offset s) - 2)"

definition trailer_mark :: "('f, 'w::len) FarmGPS \<Rightarrow> byte" where
  "trailer_mark s = term_buf s ! (unat (term_offset s) - 1)"

definition sum_without_trailer :: "('f, 'w::len) FarmGPS \<Rightarrow> 'w word" where
  "sum_without_trailer s =
     sum_acc s - ucast (trailer_mark s) - ucast (trailer_lo s) - ucast (trailer_hi s)"

text \<open>
  Two decoder states that have read the same sentence up to the hemisphere letter of term
  3, \<open>A\<close> with \<^verbatim>\<open>N\<close> and \<open>B\<close> with \<^verbatim>\<open>S\<close>: they differ in the accumulators, in the
  sign of the shadow latitude and, until the next byte is stored, in the first byte of the
  buffer.
\<close>

definition twin :: "'f platform \<Rightarrow> ('f, 'w::len) FarmGPS \<Rightarrow> ('f, 'w) FarmGPS \<Rightarrow> bool" where
  "twin P A B \<longleftrightarrow>
     (\<exists>p q z. B = A\<lparr>parity := p, sum_acc := q, new_latitude := f_neg P (new_latitude A),
                     term_buf := (if term_offset A = 0 then (term_buf A)[0 := z] else term_buf A)\<rparr>)"

section \<open>A test platform\<close>

text \<open>
  A platform for concrete runs: a \<^verbatim>\<open>float\<close> holds whole numbers only, \<^verbatim>\<open>atof\<close> and
  \<^verbatim>\<open>atoi\<close> read an optional minus sign and the digits before the first other character.
\<close>

definition is_digit :: "byte \<Rightarrow> bool" where
  "is_digit c \<longleftrightarrow> 0x30 \<le> c \<and> c \<le> 0x39"

fun digits_val :: "int \<Rightarrow> byte list \<Rightarrow> int" where
  "digits_val acc [] = acc"
| "digits_val acc (c # cs) = digits_val (10 * acc + uint (c - 0x30)) cs"

definition whole_atoi :: "byte list \<Rightarrow> int" where
  "whole_atoi s =
    (if s \<noteq> [] \<and> hd s = 0x2D then - digits_val 0 (takeWhile is_digit (tl s))
     else digits_val 0 (takeWhile is_digit s))"

definition trunc_div :: "int \<Rightarrow> int \<Rightarrow> int" where
  "trunc_div a b = sgn a * sgn b * (\<bar>a\<bar> div \<bar>b\<bar>)"

definition test_platform :: "bool \<Rightarrow> int platform" where
  "test_platform sg =
     \<lparr>char_signed = sg, atof = whole_atoi, atoi = whole_atoi, f_neg = uminus, f_add = (+),
      f_sub = (-), f_div = trunc_div, f_of_int = id, f_trunc = id, f_invalid = 999999\<rparr>"

definition blank_memory :: "(int, 16) FarmGPS" where
  "blank_memory =
     \<lparr>time = 0, new_time = 0, date = 0, latitude = 0, new_latitude = 0, longitude = 0,
      new_longitude = 0, altitude = 0, new_altitude = 0, speed = 0, new_speed = 0, course = 0,
      new_course = 0, xte = 0, new_xte = 0, quality = 0, new_quality = 0, last_GGA_fix = 0,
      last_VTG_fix = 0, last_XTE_fix = 0, new_GGA_data = False, new_VTG_data = False,
      new_XTE_data = False, term_buf = replicate 20 0, term_number = 0, term_offset = 0,
      parity = 0, checksum = 0, sum_acc = 0, is_checksum_term = False, sentence_type = OTHER,
      encoded_characters = 0, good_sentences = 0, failed_checksum = 0, passed_checksum = 0\<rparr>"

definition fresh :: "bool \<Rightarrow> (int, 16) FarmGPS" where
  \<comment> \<open>a newly constructed decoder\<close>
  "fresh sg = FarmGPS_init (test_platform sg) blank_memory"

definition at_time :: "32 word \<Rightarrow> byte list \<Rightarrow> (byte \<times> 32 word) list" where
  \<comment> \<open>bytes that all arrive while \<^verbatim>\<open>millis()\<close> is \<open>n\<close>\<close>
  "at_time n bs = map (\<lambda>b. (b, n)) bs"

definition frame_state :: "'w::len word \<Rightarrow> (int, 'w) FarmGPS" where
  \<comment> \<open>a decoder that has buffered \<^verbatim>\<open>ROXTE\<close> as term 0 and after it the trailer bytes
      1, 146 and 16 of a binary frame, with the sum \<open>sm\<close> and 5 in the shadow of
      \<^verbatim>\<open>xte\<close>\<close>
  "frame_state sm =
     \<lparr>time = 0, new_time = 0, date = 0, latitude = 0, new_latitude = 0, longitude = 0,
      new_longitude = 0, altitude = 0, new_altitude = 0, speed = 0, new_speed = 0, course = 0,
      new_course = 0, xte = 0, new_xte = 5, quality = 0, new_quality = 0, last_GGA_fix = 0,
      last_VTG_fix = 0, last_XTE_fix = 0, new_GGA_data = False, new_VTG_data = False,
      new_XTE_data = False, term_buf = ascii ''ROXTE'' @ [1, 146, 16] @ replicate 12 0,
      term_number = 0, term_offset = 8, parity = 0, checksum = 0, sum_acc = sm,
      is_checksum_term = False, sentence_type = OTHER, encoded_characters = 0,
      good_sentences = 0, failed_checksum = 0, passed_checksum = 0\<rparr>"

section \<open>Basic facts\<close>

lemma strcmp_c_str:
  "0 \<in> set xs \<Longrightarrow> 0 \<in> set ys \<Longrightarrow>
   strcmp xs ys = Some (takeWhile (\<lambda>b. b \<noteq> 0) xs = takeWhile (\<lambda>b. b \<noteq> 0) ys)"
  by (induction xs ys rule: strcmp.induct) auto

lemma literal_facts:
  "0 \<in> set GPGGA_TERM" "takeWhile (\<lambda>b. b \<noteq> 0) GPGGA_TERM = ascii ''GPGGA''"
  "0 \<in> set GPVTG_TERM" "takeWhile (\<lambda>b. b \<noteq> 0) GPVTG_TERM = ascii ''GPVTG''"
  "0 \<in> set GPXTE_TERM" "takeWhile (\<lambda>b. b \<noteq> 0) GPXTE_TERM = ascii ''GPXTE''"
  "0 \<in> set ROXTE_TERM" "takeWhile (\<lambda>b. b \<noteq> 0) ROXTE_TERM = ascii ''ROXTE''"
  by (simp_all add: GPGGA_TERM_def GPVTG_TERM_def GPXTE_TERM_def ROXTE_TERM_def
      c_literal_def ascii_def)

lemma classify_Some:
  "0 \<in> set (term_buf s) \<Longrightarrow>
   classify s = Some (s\<lparr>sentence_type := token_type (takeWhile (\<lambda>b. b \<noteq> 0) (term_buf s))\<rparr>)"
  by (simp add: classify_def strcmp_c_str literal_facts token_type_def)

lemma parse_strings:
  assumes "0 \<in> set t"
  shows "\<exists>x. parse_decimal P t = Some x" "\<exists>x. parse_degrees P w t = Some x"
    "\<exists>x. parse_integer P t = Some x" "\<exists>x. rd t 0 = Some x"
proof -
  from assms have "t \<noteq> []" by auto
  with assms show "\<exists>x. parse_decimal P t = Some x" "\<exists>x. parse_degrees P w t = Some x"
    "\<exists>x. parse_integer P t = Some x" "\<exists>x. rd t 0 = Some x"
    by (simp_all add: parse_decimal_def parse_degrees_def parse_integer_def c_str_def rd_def)
qed

lemma extract_term_frame:
  "extract_term P s = Some s' \<Longrightarrow>
   published s' = published s \<and> machine s' = machine s \<and> sentence_type s' = sentence_type s"
  by (cases "sentence_type s")
     (auto simp add: extract_term_def published_def machine_def split: if_splits bind_splits)

lemma extract_term_total:
  fixes s :: "('f, 'w::len) FarmGPS"
  assumes "0 \<in> set (term_buf s)"
  shows "\<exists>s'. extract_term P s = Some s'"
proof -
  from parse_strings(1) [OF assms, of P]
    parse_strings(2) [OF assms, where P = P and w = "TYPE('w)"] parse_strings(3) [OF assms, of P]
    parse_strings(4) [OF assms]
  obtain x1 x2 x3 x4 where
    "parse_decimal P (term_buf s) = Some x1" "parse_degrees P TYPE('w) (term_buf s) = Some x2"
    "parse_integer P (term_buf s) = Some x3" "rd (term_buf s) 0 = Some x4"
    by blast
  then show ?thesis
    by (cases "sentence_type s") (simp_all add: extract_term_def)
qed

lemma parse_term_plain:
  assumes "\<not> is_checksum_term s" "0 \<in> set (term_buf s)"
  shows "\<exists>s'. parse_term P now s = Some (False, s') \<and> published s' = published s \<and>
           machine s' = machine s"
proof -
  from assms(2) have ne: "term_buf s \<noteq> []" by auto
  show ?thesis
  proof (cases "term_number s = 0")
    case True
    with assms show ?thesis
      by (simp add: parse_term_def classify_Some published_def machine_def)
  next
    case False
    from extract_term_total [OF assms(2), of P] obtain s1 where
      s1: "extract_term P s = Some s1" by blast
    from extract_term_frame [OF s1] s1 False assms ne show ?thesis
      by (simp add: parse_term_def rd_def)
  qed
qed

lemma decode_ordinary_eq:
  "ordinary_byte c \<Longrightarrow> decode P now c s = ordinary c (bump s)"
  by (simp add: decode_def ordinary_byte_def bump_def)

lemma decode_sep_eq:
  "c = 0x2C \<or> c = 0x3A \<or> c = 0x2A \<or> c = 0x0D \<or> c = 0x0A \<Longrightarrow>
   decode P now c s = terminator P now c (bump s)"
  by (auto simp add: decode_def bump_def)

lemma decode_skip_eq:
  "c = 20 \<or> c = 0 \<or> c = 0x20 \<Longrightarrow>
   decode P now c s = Some (False, (bump s)\<lparr>sum_acc := sum_acc s + ucast c\<rparr>)"
  by (auto simp add: decode_def bump_def)

lemma decode_start_eq:
  "c = 0x24 \<or> c = 0x40 \<Longrightarrow>
   decode P now c s =
     Some (False, (bump s)\<lparr>term_number := 0, term_offset := 0, parity := 0,
                      sum_acc := sum_acc s + ucast c, sentence_type := OTHER,
                      is_checksum_term := False\<rparr>)"
  by (auto simp add: decode_def bump_def)

lemma bump_simps [simp]:
  "published (bump s) = published s" "wf (bump s) = wf s"
  "is_checksum_term (bump s) = is_checksum_term s" "parity (bump s) = parity s"
  "term_buf (bump s) = term_buf s" "term_offset (bump s) = term_offset s"
  "term_number (bump s) = term_number s" "sentence_type (bump s) = sentence_type s"
  "sum_acc (bump s) = sum_acc s" "checksum (bump s) = checksum s"
  by (simp_all add: bump_def published_def wf_def)

lemma wr_at:
  assumes "unat i < length t"
  shows "wr t (uint (i::byte)) v = Some (t[unat i := v])"
proof -
  from assms have "int (unat i) < int (length t)" by (simp only: of_nat_less_iff)
  then have "uint i < int (length t)" by simp
  then show ?thesis by (simp add: wr_def)
qed

lemma ordinary_step:
  assumes "wf s"
  shows "\<exists>s'. ordinary c s = Some (False, s') \<and> wf s' \<and> published s' = published s \<and>
           is_checksum_term s' = is_checksum_term s \<and> sentence_type s' = sentence_type s \<and>
           term_number s' = term_number s \<and>
           parity s' = (if is_checksum_term s then parity s else parity s XOR c) \<and>
           sum_acc s' = sum_acc s + ucast c \<and>
           (if unat (term_offset s) < 19
            then term_buf s' = (term_buf s)[unat (term_offset s) := c] \<and>
                 unat (term_offset s') = unat (term_offset s) + 1
            else term_buf s' = term_buf s \<and> term_offset s' = term_offset s)"
proof (cases "unat (term_offset s) < 19")
  case True
  then have "unat (term_offset s + 1) = unat (term_offset s) + 1"
    by (simp add: unat_word_ariths)
  with True assms show ?thesis
    by (simp add: ordinary_def wr_at TERM_SIZE_def wf_def published_def Let_def)
next
  case False
  with assms show ?thesis
    by (simp add: ordinary_def wr_def TERM_SIZE_def wf_def published_def Let_def)
qed

lemma terminator_plain:
  assumes "wf s" "\<not> is_checksum_term s"
  shows "\<exists>s'. terminator P now c s = Some (False, s') \<and> wf s' \<and> published s' = published s \<and>
           is_checksum_term s' = (c = 0x2A) \<and> term_offset s' = 0 \<and>
           term_number s' = term_number s + 1 \<and>
           parity s' = (if c = 0x2C then parity s XOR c else parity s) \<and>
           sum_acc s' = sum_acc s + ucast c \<and>
           term_buf s' = (term_buf s)[unat (term_offset s) := 0]"
proof -
  define s1 where "s1 = (if c = 0x2C then s\<lparr>parity := parity s XOR c\<rparr> else s)"
  define s2 where "s2 = s1\<lparr>sum_acc := sum_acc s1 + ucast c\<rparr>"
  define t where "t = (term_buf s)[unat (term_offset s) := 0]"
  define s3 where "s3 = s2\<lparr>term_buf := t\<rparr>"
  have s1: "published s1 = published s" "machine s1 = machine (s\<lparr>parity := (if c = 0x2C then parity s XOR c else parity s)\<rparr>)"
    by (simp_all add: s1_def published_def machine_def)
  from assms(1) have z: "0 \<in> set (term_buf s3)"
    by (simp add: s3_def t_def wf_def set_update_memI TERM_SIZE_def)
  have nck: "\<not> is_checksum_term s3" using assms(2) by (simp add: s3_def s2_def s1_def)
  from parse_term_plain [OF nck z, of P now]
  obtain s4 where s4: "parse_term P now s3 = Some (False, s4)"
      "published s4 = published s3" "machine s4 = machine s3"
    by auto
  have w: "wr (term_buf s2) (uint (term_offset s2)) 0 = Some t"
    using assms(1) by (simp add: wr_at wf_def TERM_SIZE_def s2_def s1_def t_def)
  have "terminator P now c s = Some (False, s4\<lparr>term_number := term_number s4 + 1, term_offset := 0,
                  is_checksum_term := (c = 0x2A)\<rparr>)"
    using s4(1) w unfolding terminator_def Let_def s1_def [symmetric] s2_def [symmetric]
    by (simp add: s3_def)
  moreover have "published s4 = published s" "term_buf s4 = t"
     "term_number s4 = term_number s" "parity s4 = (if c = 0x2C then parity s XOR c else parity s)"
     "sum_acc s4 = sum_acc s + ucast c"
    using s4(2,3) s1 by (simp_all add: published_def machine_def s3_def s2_def)
  ultimately show ?thesis using assms(1)
    by (simp add: wf_def published_def TERM_SIZE_def t_def)
qed

lemma published_upd [simp]:
  "published (s\<lparr>term_buf := a1\<rparr>) = published s"
  "published (s\<lparr>term_number := a2\<rparr>) = published s"
  "published (s\<lparr>term_offset := a3\<rparr>) = published s"
  "published (s\<lparr>parity := a4\<rparr>) = published s"
  "published (s\<lparr>checksum := a5\<rparr>) = published s"
  "published (s\<lparr>sum_acc := a6\<rparr>) = published s"
  "published (s\<lparr>is_checksum_term := a7\<rparr>) = published s"
  "published (s\<lparr>sentence_type := a8\<rparr>) = published s"
  "published (s\<lparr>encoded_characters := a9\<rparr>) = published s"
  by (simp_all add: published_def)

lemma wf_upd [simp]:
  "wf (s\<lparr>term_number := a2\<rparr>) = wf s"
  "wf (s\<lparr>parity := a4\<rparr>) = wf s"
  "wf (s\<lparr>checksum := a5\<rparr>) = wf s"
  "wf (s\<lparr>sum_acc := a6\<rparr>) = wf s"
  "wf (s\<lparr>is_checksum_term := a7\<rparr>) = wf s"
  "wf (s\<lparr>sentence_type := a8\<rparr>) = wf s"
  "wf (s\<lparr>encoded_characters := a9\<rparr>) = wf s"
  by (simp_all add: wf_def)

lemma wf_offset0 [simp]:
  "wf (s\<lparr>term_offset := 0\<rparr>) \<longleftrightarrow> length (term_buf s) = TERM_SIZE"
  by (simp add: wf_def TERM_SIZE_def)

lemma payload_cases:
  "payload_byte c \<Longrightarrow>
     (c = 20 \<or> c = 0 \<or> c = 0x20) \<or> (c = 0x2C \<or> c = 0x3A \<or> c = 0x0D \<or> c = 0x0A) \<or> ordinary_byte c"
  by (auto simp add: payload_byte_def ordinary_byte_def)

lemma decode_payload:
  assumes "wf s" "\<not> is_checksum_term s" "payload_byte c"
  shows "\<exists>s'. decode P now c s = Some (False, s') \<and> wf s' \<and> \<not> is_checksum_term s' \<and>
           published s' = published s \<and>
           parity s' = (if in_domain c then parity s XOR c else parity s)"
proof -
  from payload_cases [OF assms(3)] consider
    (skip) "c = 20 \<or> c = 0 \<or> c = 0x20" |
    (sep) "c = 0x2C \<or> c = 0x3A \<or> c = 0x0D \<or> c = 0x0A" |
    (ord) "ordinary_byte c" by blast
  then show ?thesis
  proof cases
    case skip
    then have "\<not> in_domain c" by (auto simp add: in_domain_def ordinary_byte_def)
    with skip assms show ?thesis
      by (simp add: decode_skip_eq)
  next
    case sep
    then have d: "decode P now c s = terminator P now c (bump s)"
      by (intro decode_sep_eq) blast
    from sep have nd: "in_domain c \<longleftrightarrow> c = 0x2C" "c \<noteq> 0x2A"
      by (auto simp add: in_domain_def ordinary_byte_def)
    from assms have "wf (bump s)" "\<not> is_checksum_term (bump s)" by simp_all
    from terminator_plain [OF this, of P now c] d nd show ?thesis
      by auto
  next
    case ord
    then have d: "decode P now c s = ordinary c (bump s)" by (rule decode_ordinary_eq)
    from ord have nd: "in_domain c" by (simp add: in_domain_def)
    from assms have "wf (bump s)" by simp
    from ordinary_step [OF this, of c] d nd assms(2) show ?thesis
      by auto
  qed
qed

lemma feed_append:
  "feed P (xs @ ys) s =
     do { (vs, s1) \<leftarrow> feed P xs s; (ws, s2) \<leftarrow> feed P ys s1; Some (vs @ ws, s2) }"
proof (induction xs arbitrary: s)
  case Nil
  show ?case by (cases "feed P ys s") auto
next
  case (Cons e xs)
  obtain c now where e: "e = (c, now)" by (cases e)
  show ?case
  proof (cases "decode P now c s")
    case None
    then show ?thesis by (simp add: e)
  next
    case (Some r)
    obtain v s1 where r: "r = (v, s1)" by (cases r)
    show ?thesis
      by (cases "feed P xs s1"; cases "feed P ys (snd (the (feed P xs s1)))")
         (auto simp add: e Some r Cons.IH split: prod.splits)
  qed
qed

lemma feed_payload:
  assumes "wf s" "\<not> is_checksum_term s" "\<forall>e \<in> set pay. payload_byte (fst e)"
  shows "\<exists>s'. feed P pay s = Some (replicate (length pay) False, s') \<and> wf s' \<and>
           \<not> is_checksum_term s' \<and> published s' = published s \<and>
           parity s' = xor_run (parity s) (map fst pay)"
  using assms
proof (induction pay arbitrary: s)
  case Nil
  then show ?case by simp
next
  case (Cons e pay)
  obtain c now where e: "e = (c, now)" by (cases e)
  from Cons.prems e have pc: "payload_byte c" by simp
  from decode_payload [OF Cons.prems(1,2) pc, of P now]
  obtain s1 where s1: "decode P now c s = Some (False, s1)" "wf s1" "\<not> is_checksum_term s1"
    "published s1 = published s" "parity s1 = (if in_domain c then parity s XOR c else parity s)"
    by blast
  from Cons.prems(3) have "\<forall>e \<in> set pay. payload_byte (fst e)" by simp
  from Cons.IH [OF s1(2,3) this]
  obtain s' where s': "feed P pay s1 = Some (replicate (length pay) False, s')" "wf s'"
    "\<not> is_checksum_term s'" "published s' = published s1"
    "parity s' = xor_run (parity s1) (map fst pay)"
    by blast
  from s1 s' show ?case by (simp add: e)
qed

lemma decode_start:
  assumes "c = 0x24 \<or> c = 0x40" "length (term_buf s) = TERM_SIZE"
  shows "\<exists>s'. decode P now c s = Some (False, s') \<and> wf s' \<and> \<not> is_checksum_term s' \<and>
           published s' = published s \<and> parity s' = 0"
  using assms by (simp add: decode_start_eq)

lemma decode_star:
  assumes "wf s" "\<not> is_checksum_term s"
  shows "\<exists>s'. decode P now 0x2A s = Some (False, s') \<and> wf s' \<and> is_checksum_term s' \<and>
           published s' = published s \<and> parity s' = parity s \<and> term_offset s' = 0"
proof -
  have d: "decode P now 0x2A s = terminator P now 0x2A (bump s)"
    by (intro decode_sep_eq) simp
  from assms have "wf (bump s)" "\<not> is_checksum_term (bump s)" by simp_all
  from terminator_plain [OF this, of P now "0x2A"] d show ?thesis by auto
qed

lemma shadow_upd [simp]:
  "shadow (s\<lparr>term_buf := a1\<rparr>) = shadow s"
  "shadow (s\<lparr>term_number := a2\<rparr>) = shadow s"
  "shadow (s\<lparr>term_offset := a3\<rparr>) = shadow s"
  "shadow (s\<lparr>parity := a4\<rparr>) = shadow s"
  "shadow (s\<lparr>checksum := a5\<rparr>) = shadow s"
  "shadow (s\<lparr>sum_acc := a6\<rparr>) = shadow s"
  "shadow (s\<lparr>is_checksum_term := a7\<rparr>) = shadow s"
  "shadow (s\<lparr>encoded_characters := a9\<rparr>) = shadow s"
  "shadow (bump s) = shadow s"
  by (simp_all add: shadow_def bump_def)

lemma commit_cong:
  "published s = published s' \<Longrightarrow> shadow s = shadow s' \<Longrightarrow>
   published (commit now s) = published (commit now s')"
  by (cases "sentence_type s'") (simp_all add: commit_def published_def shadow_def)

lemma stat_simps [simp]: "stat_good s = s" "stat_failed s = s"
  by (simp_all add: stat_good_def stat_failed_def GPS_NO_STATS_def)

lemma commit_machine [simp]:
  "wf (commit now s) = wf s" "parity (commit now s) = parity s"
  "checksum (commit now s) = checksum s" "term_number (commit now s) = term_number s"
  "sentence_type (commit now s) = sentence_type s"
  by (cases "sentence_type s"; simp add: commit_def wf_def)+

lemma rd_at:
  assumes "n < length t"
  shows "rd t (int n) = Some (t ! n)"
  using assms by (simp add: rd_def)

lemma parse_term_checksum:
  assumes "is_checksum_term s" "2 \<le> length (term_buf s)"
  shows "parse_term P now s =
    (let ck = (if sentence_type s = XTE2 then parity s
               else word_of_int (16 * hex_to_int P (term_buf s ! 0) + hex_to_int P (term_buf s ! 1)))
     in Some (ck = parity s, if ck = parity s then commit now (s\<lparr>checksum := ck\<rparr>)
                             else s\<lparr>checksum := ck\<rparr>))"
proof -
  from assms(2) have "rd (term_buf s) 0 = Some (term_buf s ! 0)" "rd (term_buf s) 1 = Some (term_buf s ! 1)"
    by (auto simp add: rd_def)
  with assms(1) show ?thesis
    by (simp add: parse_term_def Let_def)
qed

lemma ordinary_step_shadow:
  assumes "wf s"
  shows "\<exists>s'. ordinary c s = Some (False, s') \<and> shadow s' = shadow s"
  using assms by (simp add: ordinary_def wr_at wf_def TERM_SIZE_def Let_def)

lemma checksum_tail:
  assumes "wf u" "is_checksum_term u" "term_offset u = 0"
      and "ordinary_byte h1" "ordinary_byte h2" "end_byte t"
      and ck_def: "ck = (if sentence_type u = XTE2 then parity u
                 else word_of_int (16 * hex_to_int P h1 + hex_to_int P h2))"
  shows "\<exists>u'. feed P [(h1, n2), (h2, n3), (t, n4)] u = Some ([False, False, ck = parity u], u') \<and>
           checksum u' = ck \<and> parity u' = parity u \<and> wf u' \<and>
           sentence_type u' = sentence_type u \<and>
           published u' = (if ck = parity u then published (commit n4 u) else published u)"
proof -
  have w0: "wf (bump u)" using assms(1) by simp
  from ordinary_step [OF w0, of h1] ordinary_step_shadow [OF w0, of h1]
  obtain u1 where u1: "ordinary h1 (bump u) = Some (False, u1)" "wf u1" "published u1 = published u"
    "is_checksum_term u1" "parity u1 = parity u" "shadow u1 = shadow u"
    "term_buf u1 = (term_buf u)[0 := h1]" "unat (term_offset u1) = 1"
    "sentence_type u1 = sentence_type u"
    using assms(2,3) by auto
  have w1: "wf (bump u1)" using u1(2) by simp
  from ordinary_step [OF w1, of h2] ordinary_step_shadow [OF w1, of h2]
  obtain u2 where u2: "ordinary h2 (bump u1) = Some (False, u2)" "wf u2" "published u2 = published u"
    "is_checksum_term u2" "parity u2 = parity u" "shadow u2 = shadow u"
    "term_buf u2 = (term_buf u)[0 := h1, 1 := h2]" "unat (term_offset u2) = 2"
    "sentence_type u2 = sentence_type u"
    using u1 by auto
  have tne: "t \<noteq> 0x2C" and tsep: "t = 0x2C \<or> t = 0x3A \<or> t = 0x2A \<or> t = 0x0D \<or> t = 0x0A"
    using assms(6) by (auto simp add: end_byte_def)
  define u3 where "u3 = (bump u2)\<lparr>sum_acc := sum_acc u2 + ucast t, term_buf := (term_buf u2)[2 := 0]\<rparr>"
  have len: "length (term_buf u) = 20" using assms(1) by (simp add: wf_def TERM_SIZE_def)
  have w: "wr (term_buf u2) (uint (term_offset u2)) 0 = Some ((term_buf u2)[2 := 0])"
    using wr_at [of "term_offset u2" "term_buf u2" 0] u2(7,8) len by simp
  have u3f: "is_checksum_term u3" "2 \<le> length (term_buf u3)" "term_buf u3 ! 0 = h1"
    "term_buf u3 ! 1 = h2" "parity u3 = parity u" "sentence_type u3 = sentence_type u"
    "published u3 = published u" "shadow u3 = shadow u" "wf u3"
    using u2 len by (simp_all add: u3_def wf_def TERM_SIZE_def)
  have ckeq: "(if sentence_type u3 = XTE2 then parity u3
               else word_of_int (16 * hex_to_int P (term_buf u3 ! 0) + hex_to_int P (term_buf u3 ! 1))) = ck"
    using u3f by (simp add: ck_def)
  define r where "r = (if ck = parity u then commit n4 (u3\<lparr>checksum := ck\<rparr>) else u3\<lparr>checksum := ck\<rparr>)"
  have pt: "parse_term P n4 u3 = Some (ck = parity u, r)"
    using parse_term_checksum [OF u3f(1,2), of P n4] ckeq u3f(5)
    by (simp add: r_def Let_def)
  define u' where "u' = r\<lparr>term_number := term_number r + 1, term_offset := 0, is_checksum_term := (t = 0x2A)\<rparr>"
  have d3: "decode P n4 t u2 = Some (ck = parity u, u')"
    using pt w tne unfolding decode_sep_eq [OF tsep] terminator_def
    by (simp add: Let_def u3_def u'_def bump_def)
  have pr: "published r = (if ck = parity u then published (commit n4 u) else published u)"
  proof -
    have "published (commit n4 (u3\<lparr>checksum := x\<rparr>)) = published (commit n4 u)" for x
      by (rule commit_cong) (simp_all add: u3f(7,8))
    then show ?thesis by (simp add: r_def u3f(7))
  qed
  have rf: "checksum r = ck" "parity r = parity u" "wf r" "sentence_type r = sentence_type u"
    using u3f by (simp_all add: r_def)
  have "feed P [(h1, n2), (h2, n3), (t, n4)] u = Some ([False, False, ck = parity u], u')"
    using u1(1) u2(1) d3 assms(4,5) by (simp add: decode_ordinary_eq)
  moreover have "checksum u' = ck" "parity u' = parity u" "wf u'"
    "sentence_type u' = sentence_type u"
    "published u' = (if ck = parity u then published (commit n4 u) else published u)"
    using rf pr by (simp_all add: u'_def wf_def TERM_SIZE_def)
  ultimately show ?thesis by blast
qed

lemma feed_Cons_Some:
  "decode P now c s = Some (v, s1) \<Longrightarrow> feed P es s1 = Some (vs, s2) \<Longrightarrow>
   feed P ((c, now) # es) s = Some (v # vs, s2)"
  by simp

lemma feed_append_Some:
  "feed P xs s = Some (vs, s1) \<Longrightarrow> feed P ys s1 = Some (ws, s2) \<Longrightarrow>
   feed P (xs @ ys) s = Some (vs @ ws, s2)"
  by (simp add: feed_append)

lemma sentence_head:
  assumes "length (term_buf s) = TERM_SIZE" "b0 = 0x24 \<or> b0 = 0x40"
      and "\<forall>e \<in> set pay. payload_byte (fst e)"
  shows "\<exists>u. feed P ((b0, n0) # pay @ [(0x2A, n1)]) s = Some (replicate (length pay + 2) False, u) \<and>
           wf u \<and> is_checksum_term u \<and> term_offset u = 0 \<and> published u = published s \<and>
           parity u = xor_run 0 (map fst pay)"
proof -
  from decode_start [OF assms(2,1), of P n0]
  obtain s1 where s1: "decode P n0 b0 s = Some (False, s1)" "wf s1" "\<not> is_checksum_term s1"
    "published s1 = published s" "parity s1 = 0" by blast
  from feed_payload [OF s1(2,3) assms(3), of P]
  obtain s2 where s2: "feed P pay s1 = Some (replicate (length pay) False, s2)" "wf s2"
    "\<not> is_checksum_term s2" "published s2 = published s1"
    "parity s2 = xor_run (parity s1) (map fst pay)" by blast
  from decode_star [OF s2(2,3), of P n1]
  obtain u where u: "decode P n1 0x2A s2 = Some (False, u)" "wf u" "is_checksum_term u"
    "published u = published s2" "parity u = parity s2" "term_offset u = 0" by blast
  have "feed P [(0x2A, n1)] s2 = Some ([False], u)" using u(1) by simp
  from feed_append_Some [OF s2(1) this]
  have "feed P (pay @ [(0x2A, n1)]) s1 = Some (replicate (length pay) False @ [False], u)" .
  from feed_Cons_Some [OF s1(1) this]
  have "feed P ((b0, n0) # pay @ [(0x2A, n1)]) s = Some (replicate (length pay + 2) False, u)"
    by (simp add: replicate_add eval_nat_numeral replicate_app_Cons_same)
  with u s2 s1 show ?thesis by auto
qed

lemma classify_buf:
  "classify s = Some s' \<Longrightarrow> \<exists>ty. s' = s\<lparr>sentence_type := ty\<rparr>"
  by (auto simp add: classify_def split: bind_splits if_splits)

lemma commit_buf [simp]:
  "term_buf (commit now s) = term_buf s" "encoded_characters (commit now s) = encoded_characters s"
  "good_sentences (commit now s) = good_sentences s" "failed_checksum (commit now s) = failed_checksum s"
  "is_checksum_term (commit now s) = is_checksum_term s"
  by (cases "sentence_type s"; simp add: commit_def)+

lemma parse_term_keeps:
  assumes "parse_term P now s = Some (v, s')"
  shows "term_buf s' = term_buf s \<and> encoded_characters s' = encoded_characters s \<and>
         good_sentences s' = good_sentences s \<and> failed_checksum s' = failed_checksum s"
proof (cases "is_checksum_term s")
  case True
  with assms show ?thesis
    by (auto simp add: parse_term_def split: bind_splits if_splits)
next
  case False
  show ?thesis
  proof (cases "term_number s = 0")
    case True
    with False assms obtain ty where "s' = s\<lparr>sentence_type := ty\<rparr>"
      by (auto simp add: parse_term_def split: bind_splits dest: classify_buf)
    then show ?thesis by simp
  next
    case nz: False
    with False assms show ?thesis
      by (auto simp add: parse_term_def machine_def split: bind_splits if_splits
          dest!: extract_term_frame)
  qed
qed

lemma ordinary_keeps:
  assumes "wf s" "ordinary c s = Some (v, s')"
  shows "wf s' \<and> encoded_characters s' = encoded_characters s \<and>
         good_sentences s' = good_sentences s \<and> failed_checksum s' = failed_checksum s"
proof (cases "unat (term_offset s) < 19")
  case True
  then have "unat (term_offset s + 1) = unat (term_offset s) + 1"
    by (simp add: unat_word_ariths)
  with True assms show ?thesis
    by (auto simp add: ordinary_def wr_at TERM_SIZE_def wf_def Let_def)
next
  case False
  with assms show ?thesis
    by (auto simp add: ordinary_def TERM_SIZE_def wf_def Let_def)
qed

lemma terminator_keeps:
  assumes "terminator P now c s = Some (v, s')"
  shows "length (term_buf s') = length (term_buf s) \<and> term_offset s' = 0 \<and>
         encoded_characters s' = encoded_characters s \<and>
         good_sentences s' = good_sentences s \<and> failed_checksum s' = failed_checksum s"
  using assms
  by (auto simp add: terminator_def Let_def wr_def split: bind_splits if_splits
      dest!: parse_term_keeps)

lemma trimble_end_keeps:
  assumes "wf s" "trimble_end P now c s = Some (v, s')"
  shows "wf s' \<and> encoded_characters s' = encoded_characters s \<and>
         good_sentences s' = good_sentences s \<and> failed_checksum s' = failed_checksum s"
proof (cases "rd (term_buf s) (uint (term_offset s) - 1) = Some 16 \<and> \<not> is_checksum_term s")
  case True
  with assms show ?thesis
    by (auto simp add: trimble_end_def Let_def wr_def wf_def TERM_SIZE_def
        split: bind_splits if_splits dest!: parse_term_keeps)
next
  case False
  with assms have "ordinary c s = Some (v, s')"
    by (auto simp add: trimble_end_def split: bind_splits if_splits)
  with assms(1) show ?thesis by (rule ordinary_keeps)
qed

lemma decode_keeps:
  assumes "wf s" "decode P now c s = Some (v, s')"
  shows "wf s' \<and> encoded_characters s' = encoded_characters s + 1 \<and>
         good_sentences s' = good_sentences s \<and> failed_checksum s' = failed_checksum s"
proof -
  have w: "wf (bump s)" using assms(1) by simp
  have b: "encoded_characters (bump s) = encoded_characters s + 1"
    "good_sentences (bump s) = good_sentences s" "failed_checksum (bump s) = failed_checksum s"
    by (simp_all add: bump_def)
  consider (id) "c = 191 \<and> \<not> char_signed P"
    | (start) "\<not> (c = 191 \<and> \<not> char_signed P)" "c = 0x24 \<or> c = 0x40"
    | (skip) "\<not> (c = 191 \<and> \<not> char_signed P)" "c = 20 \<or> c = 0 \<or> c = 0x20"
    | (sep) "\<not> (c = 191 \<and> \<not> char_signed P)" "c = 0x2C \<or> c = 0x3A \<or> c = 0x2A \<or> c = 0x0D \<or> c = 0x0A"
    | (etx) "\<not> (c = 191 \<and> \<not> char_signed P)" "c = 3"
    | (ord) "\<not> (c = 191 \<and> \<not> char_signed P)" "\<not> (c = 0x24 \<or> c = 0x40)" "\<not> (c = 20 \<or> c = 0 \<or> c = 0x20)"
         "\<not> (c = 0x2C \<or> c = 0x3A \<or> c = 0x2A \<or> c = 0x0D \<or> c = 0x0A)" "c \<noteq> 3"
    by blast
  then show ?thesis
  proof cases
    case id
    with assms show ?thesis by (auto simp add: decode_def wf_def TERM_SIZE_def)
  next
    case start
    with assms show ?thesis by (auto simp add: decode_def wf_def TERM_SIZE_def)
  next
    case skip
    with assms show ?thesis by (auto simp add: decode_def wf_def TERM_SIZE_def)
  next
    case sep
    with assms(2) have "terminator P now c (bump s) = Some (v, s')"
      by (auto simp add: decode_def bump_def)
    from terminator_keeps [OF this] w b show ?thesis by (simp add: wf_def TERM_SIZE_def)
  next
    case etx
    with assms(2) have "trimble_end P now c (bump s) = Some (v, s')"
      by (auto simp add: decode_def bump_def)
    from trimble_end_keeps [OF w this] b show ?thesis by simp
  next
    case ord
    with assms(2) have "ordinary c (bump s) = Some (v, s')"
      by (auto simp add: decode_def bump_def)
    from ordinary_keeps [OF w this] b show ?thesis by simp
  qed
qed

lemma feed_wf:
  "wf s \<Longrightarrow> feed P es s = Some (vs, s') \<Longrightarrow> wf s'"
proof (induction es arbitrary: s vs)
  case Nil
  then show ?case by simp
next
  case (Cons e es)
  obtain c now where e: "e = (c, now)" by (cases e)
  from Cons.prems(2) obtain v s1 ws where
    d: "decode P now c s = Some (v, s1)" and f: "feed P es s1 = Some (ws, s')"
    by (auto simp add: e split: bind_splits)
  from decode_keeps [OF Cons.prems(1) d] have "wf s1" by simp
  from Cons.IH [OF this f] show ?case .
qed

lemma init_wf: "length (term_buf m) = TERM_SIZE \<Longrightarrow> wf (FarmGPS_init P m)"
  by (simp add: FarmGPS_init_def wf_def TERM_SIZE_def GPS_NO_STATS_def)

lemma decode_etx_at_0: "term_offset s = 0 \<Longrightarrow> decode P now 3 s = None"
  by (simp add: decode_def trimble_end_def rd_def)

subsection \<open>Calls that return\<close>

lemma terminator_total:
  assumes "wf s"
  shows "terminator P now c s \<noteq> None"
proof (cases "is_checksum_term s")
  case False
  from terminator_plain [OF assms False, of P now c] show ?thesis by auto
next
  case True
  define s2 where "s2 = (if c = 0x2C then s\<lparr>parity := parity s XOR c\<rparr> else s)
      \<lparr>sum_acc := sum_acc (if c = 0x2C then s\<lparr>parity := parity s XOR c\<rparr> else s) + ucast c\<rparr>"
  have t: "terminator P now c s =
      do {
        t \<leftarrow> wr (term_buf s2) (uint (term_offset s2)) 0;
        (v, s3) \<leftarrow> parse_term P now (s2\<lparr>term_buf := t\<rparr>);
        Some (v, s3\<lparr>term_number := term_number s3 + 1, term_offset := 0,
                    is_checksum_term := (c = 0x2A)\<rparr>)
      }"
    unfolding terminator_def Let_def s2_def ..
  have f: "term_buf s2 = term_buf s" "term_offset s2 = term_offset s" "is_checksum_term s2"
    using True by (simp_all add: s2_def)
  have len: "length (term_buf s) = 20" "unat (term_offset s) < 20"
    using assms by (simp_all add: wf_def TERM_SIZE_def)
  have w: "wr (term_buf s2) (uint (term_offset s2)) 0 = Some ((term_buf s)[unat (term_offset s) := 0])"
    using len by (simp add: f wr_at)
  have "is_checksum_term (s2\<lparr>term_buf := (term_buf s)[unat (term_offset s) := 0]\<rparr>)"
    "2 \<le> length (term_buf (s2\<lparr>term_buf := (term_buf s)[unat (term_offset s) := 0]\<rparr>))"
    using f len by simp_all
  from parse_term_checksum [OF this, of P now]
  obtain v s3 where "parse_term P now (s2\<lparr>term_buf := (term_buf s)[unat (term_offset s) := 0]\<rparr>) = Some (v, s3)"
    by (simp add: Let_def)
  with w show ?thesis unfolding t by simp
qed

lemma decode_total:
  assumes "wf s" "c \<noteq> 3"
  shows "decode P now c s \<noteq> None"
proof -
  have w: "wf (bump s)" using assms(1) by simp
  from ordinary_step [OF w, of c] have o: "ordinary c (bump s) \<noteq> None" by auto
  from terminator_total [OF w, of P now c] o assms(2) show ?thesis
    by (auto simp add: decode_def bump_def Let_def)
qed

lemma feed_total:
  "wf s \<Longrightarrow> \<forall>e \<in> set es. fst e \<noteq> 3 \<Longrightarrow> feed P es s \<noteq> None"
proof (induction es arbitrary: s)
  case Nil
  then show ?case by simp
next
  case (Cons e es)
  obtain c now where e: "e = (c, now)" by (cases e)
  from Cons.prems e have "c \<noteq> 3" by simp
  from decode_total [OF Cons.prems(1) this, of P now]
  obtain v s1 where d: "decode P now c s = Some (v, s1)" by auto
  from decode_keeps [OF Cons.prems(1) d] have "wf s1" by simp
  from Cons.IH [OF this] Cons.prems(2) obtain vs s2 where "feed P es s1 = Some (vs, s2)"
    by auto
  with d show ?case by (simp add: e)
qed

subsection \<open>The binary frame trailer\<close>

lemma rd_back:
  assumes "k \<le> unat i" "unat i - k < length t"
  shows "rd t (uint (i::byte) - int k) = Some (t ! (unat i - k))"
proof -
  have "uint i = int (unat i)" by simp
  with assms(1) have e: "uint i - int k = int (unat i - k)" by simp
  show ?thesis unfolding e using assms(2) by (rule rd_at)
qed

lemma wr_back:
  assumes "k \<le> unat i" "unat i - k < length t"
  shows "wr t (uint (i::byte) - int k) v = Some (t[unat i - k := v])"
proof -
  have "uint i = int (unat i)" by simp
  with assms(1) have e: "uint i - int k = int (unat i - k)" by simp
  show ?thesis unfolding e using assms(2) by (simp add: wr_def)
qed

lemma decode_etx_eq: "decode P now 3 s = trimble_end P now 3 (bump s)"
  by (simp add: decode_def bump_def)

lemma trimble_end_unfold:
  assumes "rd (term_buf s) (uint (term_offset s) - 1) = Some 16"
      and "rd (term_buf s) (uint (term_offset s) - 2) = Some a2"
      and "rd (term_buf s) (uint (term_offset s) - 3) = Some a3"
      and "\<not> is_checksum_term s"
      and "r = sum_acc s - ucast (16 :: byte) - ucast a2 - ucast a3"
  shows "trimble_end P now c s =
    (if r - ucast a2 - 256 * ucast a3 = 0 then
       do {
         t \<leftarrow> wr (term_buf s) (uint (term_offset s) - 3) 0;
         (u, s2) \<leftarrow> parse_term P now (s\<lparr>sum_acc := r, term_buf := t\<rparr>);
         (v, s3) \<leftarrow> parse_term P now (s2\<lparr>is_checksum_term := True\<rparr>);
         Some (v, s3\<lparr>term_number := term_number s3 + 1, term_offset := 0\<rparr>)
       }
     else Some (False, s\<lparr>sum_acc := r, term_number := term_number s + 1, term_offset := 0\<rparr>))"
proof -
  have f: "term_buf (s\<lparr>sum_acc := x\<rparr>) = term_buf s" "term_offset (s\<lparr>sum_acc := x\<rparr>) = term_offset s"
    "sum_acc (s\<lparr>sum_acc := x\<rparr>) = x" "term_number (s\<lparr>sum_acc := x\<rparr>) = term_number s" for x
    by simp_all
  have t: "((16 :: byte) = 16 \<and> \<not> is_checksum_term s) = True" using assms(4) by simp
  show ?thesis
    unfolding trimble_end_def
    by (simp only: assms(1,2,3) Option.bind.bind_lunit t if_True Let_def assms(5) [symmetric] f)
qed

lemma trimble_match:
  assumes "wf s" "\<not> is_checksum_term s" "3 \<le> unat (term_offset s)" "trailer_mark s = 16"
      and "sum_without_trailer s = 256 * ucast (trailer_hi s) + ucast (trailer_lo s)"
  shows "\<exists>s2 v s3.
      parse_term P now (s\<lparr>encoded_characters := encoded_characters s + 1,
                          sum_acc := sum_without_trailer s,
                          term_buf := (term_buf s)[unat (term_offset s) - 3 := 0]\<rparr>) = Some (False, s2) \<and>
      parse_term P now (s2\<lparr>is_checksum_term := True\<rparr>) = Some (v, s3) \<and>
      decode P now 3 s = Some (v, s3\<lparr>term_number := term_number s3 + 1, term_offset := 0\<rparr>) \<and>
      (sentence_type s2 = XTE2 \<longrightarrow> v \<and> checksum s3 = parity s3)"
proof -
  define off where "off = unat (term_offset s)"
  have len: "length (term_buf s) = 20" and ob: "off < 20" "3 \<le> off"
    using assms(1,3) by (simp_all add: wf_def TERM_SIZE_def off_def)
  define s1 where "s1 = (bump s)\<lparr>sum_acc := sum_without_trailer s\<rparr>"
  define t where "t = (term_buf s)[off - 3 := 0]"
  define s1t where "s1t = s1\<lparr>term_buf := t\<rparr>"
  have r1: "rd (term_buf s) (uint (term_offset s) - 1) = Some (trailer_mark s)"
    using rd_back [of 1 "term_offset s" "term_buf s"] ob len by (simp add: trailer_mark_def off_def)
  have r2: "rd (term_buf s) (uint (term_offset s) - 2) = Some (trailer_lo s)"
    using rd_back [of 2 "term_offset s" "term_buf s"] ob len by (simp add: trailer_lo_def off_def)
  have r3: "rd (term_buf s) (uint (term_offset s) - 3) = Some (trailer_hi s)"
    using rd_back [of 3 "term_offset s" "term_buf s"] ob len by (simp add: trailer_hi_def off_def)
  have w3: "wr (term_buf s) (uint (term_offset s) - 3) 0 = Some t"
    using wr_back [of 3 "term_offset s" "term_buf s" 0] ob len by (simp add: t_def off_def)
  have z: "0 \<in> set (term_buf s1t)"
    using ob len by (simp add: s1t_def t_def set_update_memI)
  have nck: "\<not> is_checksum_term s1t" using assms(2) by (simp add: s1t_def s1_def)
  from parse_term_plain [OF nck z, of P now]
  obtain s2 where s2: "parse_term P now s1t = Some (False, s2)" "machine s2 = machine s1t"
    by blast
  have l2: "2 \<le> length (term_buf (s2\<lparr>is_checksum_term := True\<rparr>))"
    using s2(2) len by (simp add: machine_def s1t_def t_def)
  have c2: "is_checksum_term (s2\<lparr>is_checksum_term := True\<rparr>)" by simp
  define ck where "ck = (if sentence_type s2 = XTE2 then parity s2
      else word_of_int (16 * hex_to_int P (term_buf s2 ! 0) + hex_to_int P (term_buf s2 ! 1)))"
  define s3 where "s3 = (if ck = parity s2 then commit now (s2\<lparr>is_checksum_term := True, checksum := ck\<rparr>)
      else s2\<lparr>is_checksum_term := True, checksum := ck\<rparr>)"
  have p2: "parse_term P now (s2\<lparr>is_checksum_term := True\<rparr>) = Some (ck = parity s2, s3)"
    using parse_term_checksum [OF c2 l2, of P now] by (simp add: ck_def s3_def Let_def)
  have r: "sum_without_trailer s =
      sum_acc s - ucast (16 :: byte) - ucast (trailer_lo s) - ucast (trailer_hi s)"
    using assms(4) by (simp add: sum_without_trailer_def)
  have c: "sum_without_trailer s - ucast (trailer_lo s) - 256 * ucast (trailer_hi s) = 0"
    unfolding assms(5) by simp
  have m: "trailer_mark s = 16" by (rule assms(4))
  note u = trimble_end_unfold [of "bump s" "trailer_lo s" "trailer_hi s" "sum_without_trailer s" P now 3,
      unfolded bump_simps, OF r1 [unfolded m] r2 r3 assms(2) r, unfolded c]
  have te: "trimble_end P now 3 (bump s) =
      Some (ck = parity s2, s3\<lparr>term_number := term_number s3 + 1, term_offset := 0\<rparr>)"
    unfolding u using w3 s2(1) p2 by (simp add: s1t_def s1_def)
  have x: "sentence_type s2 = XTE2 \<longrightarrow> (ck = parity s2) \<and> checksum s3 = parity s3"
    by (simp add: ck_def s3_def)
  have s1t_eq: "s1t = s\<lparr>encoded_characters := encoded_characters s + 1,
                          sum_acc := sum_without_trailer s,
                          term_buf := (term_buf s)[unat (term_offset s) - 3 := 0]\<rparr>"
    by (simp add: s1t_def s1_def t_def off_def bump_def)
  from s2(1) p2 te x show ?thesis unfolding decode_etx_eq s1t_eq by blast
qed

lemma trimble_sum_mismatch:
  assumes "wf s" "\<not> is_checksum_term s" "3 \<le> unat (term_offset s)" "trailer_mark s = 16"
      and "sum_without_trailer s \<noteq> 256 * ucast (trailer_hi s) + ucast (trailer_lo s)"
  shows "decode P now 3 s =
      Some (False, s\<lparr>encoded_characters := encoded_characters s + 1,
                     sum_acc := sum_without_trailer s,
                     term_number := term_number s + 1, term_offset := 0\<rparr>)"
proof -
  define off where "off = unat (term_offset s)"
  have len: "length (term_buf s) = 20" and ob: "off < 20" "3 \<le> off"
    using assms(1,3) by (simp_all add: wf_def TERM_SIZE_def off_def)
  have r1: "rd (term_buf s) (uint (term_offset s) - 1) = Some (trailer_mark s)"
    using rd_back [of 1 "term_offset s" "term_buf s"] ob len by (simp add: trailer_mark_def off_def)
  have r2: "rd (term_buf s) (uint (term_offset s) - 2) = Some (trailer_lo s)"
    using rd_back [of 2 "term_offset s" "term_buf s"] ob len by (simp add: trailer_lo_def off_def)
  have r3: "rd (term_buf s) (uint (term_offset s) - 3) = Some (trailer_hi s)"
    using rd_back [of 3 "term_offset s" "term_buf s"] ob len by (simp add: trailer_hi_def off_def)
  have r: "sum_without_trailer s =
      sum_acc s - ucast (16 :: byte) - ucast (trailer_lo s) - ucast (trailer_hi s)"
    using assms(4) by (simp add: sum_without_trailer_def)
  have c: "sum_without_trailer s - ucast (trailer_lo s) - 256 * ucast (trailer_hi s) \<noteq> 0"
    using assms(5) by (simp add: algebra_simps)
  have m: "trailer_mark s = 16" by (rule assms(4))
  note u = trimble_end_unfold [of "bump s" "trailer_lo s" "trailer_hi s" "sum_without_trailer s" P now 3,
      unfolded bump_simps, OF r1 [unfolded m] r2 r3 assms(2) r]
  show ?thesis
    unfolding decode_etx_eq u using c by (simp add: bump_def)
qed

lemma etx_ordinary:
  assumes "wf s" "\<not> is_checksum_term s" "1 \<le> unat (term_offset s)" "trailer_mark s \<noteq> 16"
  shows "decode P now 3 s =
      Some (False, s\<lparr>encoded_characters := encoded_characters s + 1,
                     term_buf := (if unat (term_offset s) < TERM_SIZE - 1
                                  then (term_buf s)[unat (term_offset s) := 3] else term_buf s),
                     term_offset := (if unat (term_offset s) < TERM_SIZE - 1
                                     then term_offset s + 1 else term_offset s),
                     parity := parity s XOR 3, sum_acc := sum_acc s + 3\<rparr>)"
proof -
  have len: "length (term_buf s) = 20" and ob: "unat (term_offset s) < 20"
    using assms(1) by (simp_all add: wf_def TERM_SIZE_def)
  have r1: "rd (term_buf s) (uint (term_offset s) - 1) = Some (trailer_mark s)"
    using rd_back [of 1 "term_offset s" "term_buf s"] ob len assms(3) by (simp add: trailer_mark_def)
  have "decode P now 3 s = ordinary 3 (bump s)"
    using r1 assms(4) unfolding decode_etx_eq trimble_end_def by simp
  also have "\<dots> = Some (False, s\<lparr>encoded_characters := encoded_characters s + 1,
                     term_buf := (if unat (term_offset s) < TERM_SIZE - 1
                                  then (term_buf s)[unat (term_offset s) := 3] else term_buf s),
                     term_offset := (if unat (term_offset s) < TERM_SIZE - 1
                                     then term_offset s + 1 else term_offset s),
                     parity := parity s XOR 3, sum_acc := sum_acc s + 3\<rparr>)"
    using assms(2) ob len
    by (simp add: ordinary_def wr_at bump_def TERM_SIZE_def Let_def)
  finally show ?thesis .
qed

subsection \<open>What a call publishes\<close>

lemma committed_upd [simp]:
  "committed now s (s'\<lparr>term_buf := a1\<rparr>) = committed now s s'"
  "committed now s (s'\<lparr>term_number := a2\<rparr>) = committed now s s'"
  "committed now s (s'\<lparr>term_offset := a3\<rparr>) = committed now s s'"
  "committed now s (s'\<lparr>is_checksum_term := a7\<rparr>) = committed now s s'"
  "committed now (s\<lparr>term_buf := a1\<rparr>) s' = committed now s s'"
  "committed now (s\<lparr>parity := a4\<rparr>) s' = committed now s s'"
  "committed now (s\<lparr>checksum := a5\<rparr>) s' = committed now s s'"
  "committed now (s\<lparr>sum_acc := a6\<rparr>) s' = committed now s s'"
  "committed now (s\<lparr>is_checksum_term := a7\<rparr>) s' = committed now s s'"
  "committed now (bump s) s' = committed now s s'"
  by (simp_all add: committed_def gga_group_def vtg_group_def xte_group_def bump_def
      split: types.splits)

lemma committed_cong:
  "published s = published r \<Longrightarrow> committed now s s' = committed now r s'"
  by (simp add: committed_def gga_group_def vtg_group_def xte_group_def published_def
      split: types.splits)

lemma commit_committed: "committed now s (commit now s)"
  by (cases "sentence_type s")
     (simp_all add: committed_def commit_def gga_group_def vtg_group_def xte_group_def)

lemma parse_term_effect:
  assumes "parse_term P now s = Some (v, s')"
  shows "(v \<longrightarrow> committed now s s') \<and> (\<not> v \<longrightarrow> published s' = published s)"
proof (cases "is_checksum_term s")
  case True
  from assms True have
    "(v \<and> (\<exists>ck. s' = commit now (s\<lparr>checksum := ck\<rparr>))) \<or> (\<not> v \<and> (\<exists>ck. s' = s\<lparr>checksum := ck\<rparr>))"
    by (auto simp add: parse_term_def split: bind_splits if_splits)
  then show ?thesis
  proof
    assume "v \<and> (\<exists>ck. s' = commit now (s\<lparr>checksum := ck\<rparr>))"
    then obtain ck where "v" "s' = commit now (s\<lparr>checksum := ck\<rparr>)" by blast
    with commit_committed [of now "s\<lparr>checksum := ck\<rparr>"] show ?thesis by simp
  next
    assume "\<not> v \<and> (\<exists>ck. s' = s\<lparr>checksum := ck\<rparr>)"
    then show ?thesis by auto
  qed
next
  case False
  show ?thesis
  proof (cases "term_number s = 0")
    case True
    with False assms obtain ty where "\<not> v" "s' = s\<lparr>sentence_type := ty\<rparr>"
      by (auto simp add: parse_term_def split: bind_splits dest: classify_buf)
    then show ?thesis by simp
  next
    case nz: False
    with False assms show ?thesis
      by (auto simp add: parse_term_def split: bind_splits if_splits dest!: extract_term_frame)
  qed
qed

lemma ordinary_effect:
  "ordinary c s = Some (v, s') \<Longrightarrow> \<not> v \<and> published s' = published s"
  by (auto simp add: ordinary_def Let_def split: bind_splits if_splits)

lemma terminator_effect:
  assumes "terminator P now c s = Some (v, s')"
  shows "(v \<longrightarrow> committed now s s') \<and> (\<not> v \<longrightarrow> published s' = published s)"
proof -
  define s2 where "s2 = (if c = 0x2C then s\<lparr>parity := parity s XOR c\<rparr> else s)
      \<lparr>sum_acc := sum_acc (if c = 0x2C then s\<lparr>parity := parity s XOR c\<rparr> else s) + ucast c\<rparr>"
  have "terminator P now c s =
      do {
        t \<leftarrow> wr (term_buf s2) (uint (term_offset s2)) 0;
        (v, s3) \<leftarrow> parse_term P now (s2\<lparr>term_buf := t\<rparr>);
        Some (v, s3\<lparr>term_number := term_number s3 + 1, term_offset := 0,
                    is_checksum_term := (c = 0x2A)\<rparr>)
      }"
    unfolding terminator_def Let_def s2_def ..
  with assms obtain t s3 where
    p: "parse_term P now (s2\<lparr>term_buf := t\<rparr>) = Some (v, s3)" and
    s': "s' = s3\<lparr>term_number := term_number s3 + 1, term_offset := 0, is_checksum_term := (c = 0x2A)\<rparr>"
    by (auto split: bind_splits)
  have e: "published (s2\<lparr>term_buf := t\<rparr>) = published s" by (simp add: s2_def)
  from parse_term_effect [OF p] committed_cong [OF e, of now s3] e
  show ?thesis by (simp add: s')
qed

lemma trimble_end_effect:
  assumes "trimble_end P now c s = Some (v, s')"
  shows "(v \<longrightarrow> committed now s s') \<and> (\<not> v \<longrightarrow> published s' = published s)"
proof (cases "rd (term_buf s) (uint (term_offset s) - 1) = Some 16 \<and> \<not> is_checksum_term s")
  case False
  with assms have "ordinary c s = Some (v, s')"
    by (auto simp add: trimble_end_def split: bind_splits if_splits)
  from ordinary_effect [OF this] show ?thesis by simp
next
  case True
  then have r1: "rd (term_buf s) (uint (term_offset s) - 1) = Some 16" and nck: "\<not> is_checksum_term s"
    by simp_all
  from assms r1 nck obtain a2 where r2: "rd (term_buf s) (uint (term_offset s) - 2) = Some a2"
    by (cases "rd (term_buf s) (uint (term_offset s) - 2)") (auto simp add: trimble_end_def)
  from assms r1 nck r2 obtain a3 where r3: "rd (term_buf s) (uint (term_offset s) - 3) = Some a3"
    by (cases "rd (term_buf s) (uint (term_offset s) - 3)") (auto simp add: trimble_end_def)
  define r where "r = sum_acc s - ucast (16 :: byte) - ucast a2 - ucast a3"
  note u = trimble_end_unfold [OF r1 r2 r3 nck r_def, of P now c]
  show ?thesis
  proof (cases "r - ucast a2 - 256 * ucast a3 = 0")
    case False
    with assms u have "\<not> v" "s' = s\<lparr>sum_acc := r, term_number := term_number s + 1, term_offset := 0\<rparr>"
      by simp_all
    then show ?thesis by simp
  next
    case True
    with assms u obtain t w s2 s3 where
      p1: "parse_term P now (s\<lparr>sum_acc := r, term_buf := t\<rparr>) = Some (w, s2)" and
      p2: "parse_term P now (s2\<lparr>is_checksum_term := True\<rparr>) = Some (v, s3)" and
      s': "s' = s3\<lparr>term_number := term_number s3 + 1, term_offset := 0\<rparr>"
      by (auto split: bind_splits)
    have "\<not> is_checksum_term (s\<lparr>sum_acc := r, term_buf := t\<rparr>)" using nck by simp
    with p1 have "\<not> w"
      by (auto simp add: parse_term_def split: bind_splits if_splits)
    with parse_term_effect [OF p1] have e1: "published s2 = published s" by simp
    then have e2: "published (s2\<lparr>is_checksum_term := True\<rparr>) = published s" by simp
    from parse_term_effect [OF p2] committed_cong [OF e2, of now s3] e2
    show ?thesis by (simp add: s')
  qed
qed

lemma decode_effect:
  assumes "decode P now c s = Some (v, s')"
  shows "(v \<longrightarrow> committed now s s') \<and> (\<not> v \<longrightarrow> published s' = published s)"
proof -
  consider (id) "c = 191 \<and> \<not> char_signed P"
    | (start) "\<not> (c = 191 \<and> \<not> char_signed P)" "c = 0x24 \<or> c = 0x40"
    | (skip) "\<not> (c = 191 \<and> \<not> char_signed P)" "c = 20 \<or> c = 0 \<or> c = 0x20"
    | (sep) "\<not> (c = 191 \<and> \<not> char_signed P)" "c = 0x2C \<or> c = 0x3A \<or> c = 0x2A \<or> c = 0x0D \<or> c = 0x0A"
    | (etx) "\<not> (c = 191 \<and> \<not> char_signed P)" "c = 3"
    | (ord) "\<not> (c = 191 \<and> \<not> char_signed P)" "\<not> (c = 0x24 \<or> c = 0x40)" "\<not> (c = 20 \<or> c = 0 \<or> c = 0x20)"
         "\<not> (c = 0x2C \<or> c = 0x3A \<or> c = 0x2A \<or> c = 0x0D \<or> c = 0x0A)" "c \<noteq> 3"
    by blast
  then show ?thesis
  proof cases
    case id
    with assms show ?thesis by (auto simp add: decode_def)
  next
    case start
    with assms show ?thesis by (auto simp add: decode_def)
  next
    case skip
    with assms show ?thesis by (auto simp add: decode_def)
  next
    case sep
    with assms have "terminator P now c (bump s) = Some (v, s')"
      by (auto simp add: decode_def bump_def)
    from terminator_effect [OF this] show ?thesis by simp
  next
    case etx
    with assms have "trimble_end P now c (bump s) = Some (v, s')"
      by (auto simp add: decode_def bump_def)
    from trimble_end_effect [OF this] show ?thesis by simp
  next
    case ord
    with assms have "ordinary c (bump s) = Some (v, s')"
      by (auto simp add: decode_def bump_def)
    from ordinary_effect [OF this] show ?thesis by simp
  qed
qed

subsection \<open>Two sentences that differ in the hemisphere letter\<close>

lemma published_upd_shadow [simp]:
  "published (s\<lparr>new_latitude := a1\<rparr>) = published s"
  by (simp add: published_def)

lemma extract_term_hemi:
  fixes A :: "('f, 'w::len) FarmGPS"
  assumes "term_number A \<noteq> 2" "term_number A \<noteq> 3" "0 \<in> set (term_buf A)"
  shows "\<exists>A'. extract_term P A = Some A' \<and>
           extract_term P (A\<lparr>parity := p, sum_acc := q, new_latitude := l\<rparr>) =
             Some (A'\<lparr>parity := p, sum_acc := q, new_latitude := l\<rparr>) \<and>
           new_latitude A' = new_latitude A"
proof -
  from parse_strings(1) [OF assms(3), of P]
    parse_strings(2) [OF assms(3), where P = P and w = "TYPE('w)"] parse_strings(3) [OF assms(3), of P]
    parse_strings(4) [OF assms(3)]
  obtain x1 x2 x3 x4 where
    "parse_decimal P (term_buf A) = Some x1" "parse_degrees P TYPE('w) (term_buf A) = Some x2"
    "parse_integer P (term_buf A) = Some x3" "rd (term_buf A) 0 = Some x4"
    by blast
  with assms(1,2) show ?thesis
    by (cases "sentence_type A") (simp_all add: extract_term_def)
qed

lemma parse_term_hemi:
  assumes "\<not> is_checksum_term A" "0 \<in> set (term_buf A)"
      and "term_number A \<noteq> 0" "term_number A \<noteq> 2" "term_number A \<noteq> 3"
  shows "\<exists>A'. parse_term P now A = Some (False, A') \<and>
           parse_term P now (A\<lparr>parity := p, sum_acc := q, new_latitude := l\<rparr>) =
             Some (False, A'\<lparr>parity := p, sum_acc := q, new_latitude := l\<rparr>) \<and>
           new_latitude A' = new_latitude A \<and> machine A' = machine A \<and>
           sentence_type A' = sentence_type A \<and> published A' = published A"
proof -
  from assms(2) have ne: "term_buf A \<noteq> []" by auto
  then have r0: "rd (term_buf A) 0 = Some (term_buf A ! 0)" by (simp add: rd_def)
  show ?thesis
  proof (cases "term_buf A ! 0 = 0")
    case True
    with assms(1,3) r0 show ?thesis by (simp add: parse_term_def)
  next
    case False
    from extract_term_hemi [OF assms(4,5,2), where P = P and p = p and q = q and l = l] obtain A' where
      A': "extract_term P A = Some A'"
      "extract_term P (A\<lparr>parity := p, sum_acc := q, new_latitude := l\<rparr>) =
         Some (A'\<lparr>parity := p, sum_acc := q, new_latitude := l\<rparr>)"
      "new_latitude A' = new_latitude A" by blast
    from extract_term_frame [OF A'(1)] A' False assms(1,3) r0 show ?thesis
      by (simp add: parse_term_def)
  qed
qed

lemma twinI:
  "B = A\<lparr>parity := p, sum_acc := q, new_latitude := f_neg P (new_latitude A),
         term_buf := (if term_offset A = 0 then (term_buf A)[0 := z] else term_buf A)\<rparr> \<Longrightarrow>
   twin P A B"
  unfolding twin_def by blast

lemma twin_skip:
  assumes "twin P A B" "c = 20 \<or> c = 0 \<or> c = 0x20"
  shows "\<exists>A' B'. decode P now c A = Some (False, A') \<and> decode P now c B = Some (False, B') \<and>
           twin P A' B' \<and> wf A' = wf A \<and> is_checksum_term A' = is_checksum_term A \<and>
           sentence_type A' = sentence_type A \<and> term_number A' = term_number A \<and>
           published A' = published A"
proof -
  from assms(1) obtain p q z where
    B: "B = A\<lparr>parity := p, sum_acc := q, new_latitude := f_neg P (new_latitude A),
         term_buf := (if term_offset A = 0 then (term_buf A)[0 := z] else term_buf A)\<rparr>"
    unfolding twin_def by blast
  define A' where "A' = (bump A)\<lparr>sum_acc := sum_acc A + ucast c\<rparr>"
  define B' where "B' = (bump B)\<lparr>sum_acc := sum_acc B + ucast c\<rparr>"
  have dA: "decode P now c A = Some (False, A')" and dB: "decode P now c B = Some (False, B')"
    using assms(2) by (simp_all add: decode_skip_eq A'_def B'_def)
  have "B' = A'\<lparr>parity := p, sum_acc := q + ucast c, new_latitude := f_neg P (new_latitude A'),
         term_buf := (if term_offset A' = 0 then (term_buf A')[0 := z] else term_buf A')\<rparr>"
    by (simp add: A'_def B'_def B bump_def)
  then have "twin P A' B'" by (rule twinI)
  moreover have "wf A' = wf A" "is_checksum_term A' = is_checksum_term A"
    "sentence_type A' = sentence_type A" "term_number A' = term_number A"
    "published A' = published A"
    by (simp_all add: A'_def)
  ultimately show ?thesis using dA dB by blast
qed

lemma twin_ordinary:
  assumes "twin P A B" "ordinary_byte c" "wf A" "\<not> is_checksum_term A"
  shows "\<exists>A' B'. decode P now c A = Some (False, A') \<and> decode P now c B = Some (False, B') \<and>
           twin P A' B' \<and> wf A' \<and> \<not> is_checksum_term A' \<and>
           sentence_type A' = sentence_type A \<and> term_number A' = term_number A \<and>
           published A' = published A"
proof -
  from assms(1) obtain p q z where
    B: "B = A\<lparr>parity := p, sum_acc := q, new_latitude := f_neg P (new_latitude A),
         term_buf := (if term_offset A = 0 then (term_buf A)[0 := z] else term_buf A)\<rparr>"
    unfolding twin_def by blast
  have len: "length (term_buf A) = 20" and ob: "unat (term_offset A) < 20"
    using assms(3) by (simp_all add: wf_def TERM_SIZE_def)
  show ?thesis
  proof (cases "unat (term_offset A) < 19")
    case True
    then have u: "unat (term_offset A + 1) = unat (term_offset A) + 1"
      by (simp add: unat_word_ariths)
    then have nz: "term_offset A + 1 \<noteq> 0" by (metis Suc_eq_plus1 nat.simps(3) unat_0)
    define A' where "A' = (bump A)\<lparr>term_buf := (term_buf A)[unat (term_offset A) := c],
        term_offset := term_offset A + 1, parity := parity A XOR c, sum_acc := sum_acc A + ucast c\<rparr>"
    define B' where "B' = (bump B)\<lparr>term_buf := (term_buf B)[unat (term_offset B) := c],
        term_offset := term_offset B + 1, parity := parity B XOR c, sum_acc := sum_acc B + ucast c\<rparr>"
    have lb: "length (term_buf B) = 20" "term_offset B = term_offset A" "\<not> is_checksum_term B"
      using len assms(4) by (simp_all add: B)
    have dA: "decode P now c A = Some (False, A')"
      using True len assms(4)
      by (simp add: decode_ordinary_eq [OF assms(2)] ordinary_def wr_at TERM_SIZE_def Let_def A'_def)
    have dB: "decode P now c B = Some (False, B')"
      using True lb
      by (simp add: decode_ordinary_eq [OF assms(2)] ordinary_def wr_at TERM_SIZE_def Let_def B'_def)
    have tb: "(term_buf B)[unat (term_offset B) := c] = (term_buf A)[unat (term_offset A) := c]"
      by (cases "term_offset A = 0") (simp_all add: B)
    have "B' = A'\<lparr>parity := p XOR c, sum_acc := q + ucast c,
           new_latitude := f_neg P (new_latitude A'),
           term_buf := (if term_offset A' = 0 then (term_buf A')[0 := z] else term_buf A')\<rparr>"
      unfolding B'_def tb by (simp add: A'_def B bump_def nz)
    then have "twin P A' B'" by (rule twinI)
    moreover have "wf A'" "\<not> is_checksum_term A'" "sentence_type A' = sentence_type A"
      "term_number A' = term_number A" "published A' = published A"
      using True len u assms(4) by (simp_all add: A'_def wf_def TERM_SIZE_def)
    ultimately show ?thesis using dA dB by blast
  next
    case False
    with ob have nz: "term_offset A \<noteq> 0" by auto
    define A' where "A' = (bump A)\<lparr>parity := parity A XOR c, sum_acc := sum_acc A + ucast c\<rparr>"
    define B' where "B' = (bump B)\<lparr>parity := parity B XOR c, sum_acc := sum_acc B + ucast c\<rparr>"
    have lb: "term_offset B = term_offset A" "\<not> is_checksum_term B"
      using assms(4) by (simp_all add: B)
    have dA: "decode P now c A = Some (False, A')"
      using False assms(4)
      by (simp add: decode_ordinary_eq [OF assms(2)] ordinary_def TERM_SIZE_def Let_def A'_def)
    have dB: "decode P now c B = Some (False, B')"
      using False lb
      by (simp add: decode_ordinary_eq [OF assms(2)] ordinary_def TERM_SIZE_def Let_def B'_def)
    have "B' = A'\<lparr>parity := p XOR c, sum_acc := q + ucast c,
           new_latitude := f_neg P (new_latitude A'),
           term_buf := (if term_offset A' = 0 then (term_buf A')[0 := z] else term_buf A')\<rparr>"
      by (simp add: B'_def A'_def B bump_def nz)
    then have "twin P A' B'" by (rule twinI)
    moreover have "wf A'" "\<not> is_checksum_term A'" "sentence_type A' = sentence_type A"
      "term_number A' = term_number A" "published A' = published A"
      using assms(3,4) by (simp_all add: A'_def)
    ultimately show ?thesis using dA dB by blast
  qed
qed

lemma twin_sep:
  assumes "twin P A B" "c = 0x2C \<or> c = 0x3A \<or> c = 0x2A \<or> c = 0x0D \<or> c = 0x0A"
      and "wf A" "\<not> is_checksum_term A" "4 \<le> unat (term_number A)" "unat (term_number A) < 255"
  shows "\<exists>A' B'. decode P now c A = Some (False, A') \<and> decode P now c B = Some (False, B') \<and>
           twin P A' B' \<and> wf A' \<and> is_checksum_term A' = (c = 0x2A) \<and> term_offset A' = 0 \<and>
           sentence_type A' = sentence_type A \<and> unat (term_number A') = unat (term_number A) + 1 \<and>
           published A' = published A"
proof -
  from assms(1) obtain p q z where
    B: "B = A\<lparr>parity := p, sum_acc := q, new_latitude := f_neg P (new_latitude A),
         term_buf := (if term_offset A = 0 then (term_buf A)[0 := z] else term_buf A)\<rparr>"
    unfolding twin_def by blast
  have len: "length (term_buf A) = 20" and ob: "unat (term_offset A) < 20"
    using assms(3) by (simp_all add: wf_def TERM_SIZE_def)
  define pa where "pa = (if c = 0x2C then parity A XOR c else parity A)"
  define pb where "pb = (if c = 0x2C then p XOR c else p)"
  define t where "t = (term_buf A)[unat (term_offset A) := 0]"
  define A3 where "A3 = (bump A)\<lparr>parity := pa, sum_acc := sum_acc A + ucast c, term_buf := t\<rparr>"
  have tn: "term_number A3 \<noteq> 0" "term_number A3 \<noteq> 2" "term_number A3 \<noteq> 3"
    using assms(5) by (auto simp add: A3_def)
  have nck: "\<not> is_checksum_term A3" using assms(4) by (simp add: A3_def)
  have z0: "0 \<in> set (term_buf A3)" using len ob by (simp add: A3_def t_def set_update_memI)
  define l where "l = f_neg P (new_latitude A)"
  from parse_term_hemi [OF nck z0 tn, where P = P and now = now and p = pb and q = "q + ucast c" and l = l]
  obtain A4 where A4: "parse_term P now A3 = Some (False, A4)"
    "parse_term P now (A3\<lparr>parity := pb, sum_acc := q + ucast c, new_latitude := l\<rparr>) =
       Some (False, A4\<lparr>parity := pb, sum_acc := q + ucast c, new_latitude := l\<rparr>)"
    "new_latitude A4 = new_latitude A3" "machine A4 = machine A3"
    "sentence_type A4 = sentence_type A3" "published A4 = published A3"
    by blast
  define A' where "A' = A4\<lparr>term_number := term_number A4 + 1, term_offset := 0,
      is_checksum_term := (c = 0x2A)\<rparr>"
  define B' where "B' = A4\<lparr>parity := pb, sum_acc := q + ucast c, new_latitude := l,
      term_number := term_number A4 + 1, term_offset := 0, is_checksum_term := (c = 0x2A)\<rparr>"
  have wA: "wr (term_buf A) (uint (term_offset A)) 0 = Some t"
    using len ob by (simp add: wr_at t_def)
  have tB: "(term_buf B)[unat (term_offset A) := 0] = t"
    by (cases "term_offset A = 0") (simp_all add: B t_def)
  have wB: "wr (term_buf B) (uint (term_offset A)) 0 = Some t"
    using len ob tB wr_at [of "term_offset A" "term_buf B" 0] by (simp add: B)
  have dA: "decode P now c A = Some (False, A')"
  proof (cases "c = 0x2C")
    case True
    with A4(1) wA show ?thesis
      unfolding decode_sep_eq [OF assms(2)] terminator_def
      by (simp add: Let_def A3_def pa_def A'_def bump_def)
  next
    case False
    with A4(1) wA show ?thesis
      unfolding decode_sep_eq [OF assms(2)] terminator_def
      by (simp add: Let_def A3_def pa_def A'_def bump_def)
  qed
  define B2 where "B2 = (if c = 0x2C then (bump B)\<lparr>parity := parity (bump B) XOR c\<rparr> else bump B)"
  define B3 where "B3 = B2\<lparr>sum_acc := sum_acc B2 + ucast c\<rparr>"
  have tdef: "terminator P now c (bump B) =
      do {
        t \<leftarrow> wr (term_buf B3) (uint (term_offset B3)) 0;
        (v, s3) \<leftarrow> parse_term P now (B3\<lparr>term_buf := t\<rparr>);
        Some (v, s3\<lparr>term_number := term_number s3 + 1, term_offset := 0,
                    is_checksum_term := (c = 0x2A)\<rparr>)
      }"
    unfolding terminator_def Let_def B2_def B3_def ..
  have wB3: "wr (term_buf B3) (uint (term_offset B3)) 0 = Some t"
    using wB by (simp add: B3_def B2_def B)
  have eqs: "B3\<lparr>term_buf := t\<rparr> = A3\<lparr>parity := pb, sum_acc := q + ucast c, new_latitude := l\<rparr>"
    by (simp add: B3_def B2_def B A3_def bump_def l_def pb_def)
  have "terminator P now c (bump B) =
      Some (False, (A4\<lparr>parity := pb, sum_acc := q + ucast c, new_latitude := l\<rparr>)
              \<lparr>term_number := term_number (A4\<lparr>parity := pb, sum_acc := q + ucast c, new_latitude := l\<rparr>) + 1,
               term_offset := 0, is_checksum_term := (c = 0x2A)\<rparr>)"
    unfolding tdef by (simp only: wB3 Option.bind.bind_lunit eqs A4(2) prod.case)
  also have "\<dots> = Some (False, B')" by (simp add: B'_def)
  finally have dB: "decode P now c B = Some (False, B')"
    unfolding decode_sep_eq [OF assms(2)] .
  have nl: "new_latitude A' = new_latitude A" using A4(3) by (simp add: A'_def A3_def bump_def)
  have "B' = A'\<lparr>parity := pb, sum_acc := q + ucast c, new_latitude := f_neg P (new_latitude A'),
         term_buf := (if term_offset A' = 0 then (term_buf A')[0 := term_buf A' ! 0] else term_buf A')\<rparr>"
    unfolding nl by (simp add: B'_def A'_def l_def)
  then have tw: "twin P A' B'" by (rule twinI)
  have m: "term_buf A4 = t" "term_number A4 = term_number A"
    using A4(4) by (simp_all add: machine_def A3_def)
  have u: "unat (term_number A + 1) = unat (term_number A) + 1"
    using assms(6) by (simp add: unat_word_ariths)
  have "wf A'" "is_checksum_term A' = (c = 0x2A)" "term_offset A' = 0"
    "sentence_type A' = sentence_type A" "unat (term_number A') = unat (term_number A) + 1"
    "published A' = published A"
    using m u len A4(5,6) by (simp_all add: A'_def wf_def TERM_SIZE_def t_def A3_def)
  with tw dA dB show ?thesis by blast
qed

lemma twin_feed:
  assumes "twin P A B" "wf A" "\<not> is_checksum_term A" "4 \<le> unat (term_number A)"
      and "unat (term_number A) + length es \<le> 255" "\<forall>e \<in> set es. payload_byte (fst e)"
  shows "\<exists>A' B'. feed P es A = Some (replicate (length es) False, A') \<and>
           feed P es B = Some (replicate (length es) False, B') \<and>
           twin P A' B' \<and> wf A' \<and> \<not> is_checksum_term A' \<and> sentence_type A' = sentence_type A \<and>
           4 \<le> unat (term_number A') \<and> unat (term_number A') \<le> unat (term_number A) + length es \<and>
           published A' = published A"
  using assms
proof (induction es arbitrary: A B)
  case Nil
  then show ?case by auto
next
  case (Cons e es)
  obtain c now where e: "e = (c, now)" by (cases e)
  from Cons.prems(6) e have pc: "payload_byte c" by simp
  from Cons.prems(5) have lt: "unat (term_number A) < 255" by simp
  have "\<exists>A1 B1. decode P now c A = Some (False, A1) \<and> decode P now c B = Some (False, B1) \<and>
           twin P A1 B1 \<and> wf A1 \<and> \<not> is_checksum_term A1 \<and> sentence_type A1 = sentence_type A \<and>
           4 \<le> unat (term_number A1) \<and> unat (term_number A1) \<le> unat (term_number A) + 1 \<and>
           published A1 = published A"
  proof -
    from payload_cases [OF pc] consider
      (skip) "c = 20 \<or> c = 0 \<or> c = 0x20" |
      (sep) "c = 0x2C \<or> c = 0x3A \<or> c = 0x0D \<or> c = 0x0A" |
      (ord) "ordinary_byte c" by blast
    then show ?thesis
    proof cases
      case skip
      from twin_skip [OF Cons.prems(1) skip, of now] Cons.prems(2,3,4) show ?thesis by auto
    next
      case sep
      then have s: "c = 0x2C \<or> c = 0x3A \<or> c = 0x2A \<or> c = 0x0D \<or> c = 0x0A" and ns: "c \<noteq> 0x2A"
        by auto
      from twin_sep [OF Cons.prems(1) s Cons.prems(2,3,4) lt, of now] ns Cons.prems(4)
      show ?thesis by auto
    next
      case ord
      from twin_ordinary [OF Cons.prems(1) ord Cons.prems(2,3), of now] Cons.prems(4)
      show ?thesis by auto
    qed
  qed
  then obtain A1 B1 where s1: "decode P now c A = Some (False, A1)"
    "decode P now c B = Some (False, B1)" "twin P A1 B1" "wf A1" "\<not> is_checksum_term A1"
    "sentence_type A1 = sentence_type A" "4 \<le> unat (term_number A1)"
    "unat (term_number A1) \<le> unat (term_number A) + 1" "published A1 = published A"
    by blast
  from s1(8) Cons.prems(5) have b: "unat (term_number A1) + length es \<le> 255" by simp
  from Cons.prems(6) have p: "\<forall>e \<in> set es. payload_byte (fst e)" by simp
  from Cons.IH [OF s1(3,4,5,7) b p]
  obtain A' B' where s': "feed P es A1 = Some (replicate (length es) False, A')"
    "feed P es B1 = Some (replicate (length es) False, B')" "twin P A' B'" "wf A'"
    "\<not> is_checksum_term A'" "sentence_type A' = sentence_type A1" "4 \<le> unat (term_number A')"
    "unat (term_number A') \<le> unat (term_number A1) + length es" "published A' = published A1"
    by blast
  from s1 s' show ?case by (auto simp add: e)
qed

lemma hemisphere_letter_run:
  assumes "wf s" "\<not> is_checksum_term s" "sentence_type s = GGA" "term_number s = 3"
      and "term_offset s = 0" "h = 0x4E \<or> h = 0x53"
  shows "feed P [(h, a1), (0x2C, a2)] s =
     Some ([False, False],
       s\<lparr>encoded_characters := encoded_characters s + 1 + 1,
          parity := (parity s XOR h) XOR 0x2C,
          sum_acc := sum_acc s + ucast h + 0x2C,
          new_latitude := (if h = 0x53 then f_neg P (new_latitude s) else new_latitude s),
          term_buf := (term_buf s)[0 := h, 1 := 0],
          term_number := 4, term_offset := 0, is_checksum_term := False\<rparr>)"
proof -
  have len: "length (term_buf s) = 20" using assms(1) by (simp add: wf_def TERM_SIZE_def)
  have ob: "ordinary_byte h" using assms(6) by (auto simp add: ordinary_byte_def)
  have hz: "h \<noteq> 0" using assms(6) by auto
  define s1 where "s1 = (bump s)\<lparr>term_buf := (term_buf s)[0 := h], term_offset := 1,
      parity := parity s XOR h, sum_acc := sum_acc s + ucast h\<rparr>"
  have d1: "decode P a1 h s = Some (False, s1)"
    using assms(2,5) len
    by (simp add: decode_ordinary_eq [OF ob] ordinary_def wr_def TERM_SIZE_def Let_def s1_def)
  define t where "t = (term_buf s)[0 := h, 1 := 0]"
  define s2 where "s2 = (bump s1)\<lparr>parity := parity s1 XOR 0x2C, sum_acc := sum_acc s1 + 0x2C,
      term_buf := t\<rparr>"
  have z: "0 \<in> set t" using len by (simp add: t_def set_update_memI)
  have t0: "t \<noteq> []" "t ! 0 = h" using len by (auto simp add: t_def)
  have f2: "\<not> is_checksum_term s2" "term_number s2 = 3" "term_buf s2 = t" "sentence_type s2 = GGA"
    using assms(2,3,4) by (simp_all add: s2_def s1_def)
  have p2: "parse_term P a2 s2 =
      Some (False, if h = 0x53 then s2\<lparr>new_latitude := f_neg P (new_latitude s2)\<rparr> else s2)"
    using f2 z t0 hz by (simp add: parse_term_def rd_def extract_term_def)
  have w: "wr (term_buf s1) (uint (term_offset s1)) 0 = Some t"
    using len by (simp add: s1_def wr_def t_def)
  have "terminator P a2 0x2C (bump s1) =
      do {
        (v, s3) \<leftarrow> parse_term P a2 s2;
        Some (v, s3\<lparr>term_number := term_number s3 + 1, term_offset := 0,
                    is_checksum_term := False\<rparr>)
      }"
    using w by (simp add: terminator_def Let_def s2_def)
  then have d2: "decode P a2 0x2C s1 =
      Some (False, (if h = 0x53 then s2\<lparr>new_latitude := f_neg P (new_latitude s2)\<rparr> else s2)
          \<lparr>term_number := 4, term_offset := 0, is_checksum_term := False\<rparr>)"
    using p2 f2(2) by (simp add: decode_sep_eq)
  have e: "(if h = 0x53 then s2\<lparr>new_latitude := f_neg P (new_latitude s2)\<rparr> else s2)
          \<lparr>term_number := 4, term_offset := 0, is_checksum_term := False\<rparr> =
       s\<lparr>encoded_characters := encoded_characters s + 1 + 1,
          parity := (parity s XOR h) XOR 0x2C,
          sum_acc := sum_acc s + ucast h + 0x2C,
          new_latitude := (if h = 0x53 then f_neg P (new_latitude s) else new_latitude s),
          term_buf := (term_buf s)[0 := h, 1 := 0],
          term_number := 4, term_offset := 0, is_checksum_term := False\<rparr>"
    by (simp add: s2_def s1_def bump_def t_def)
  from d1 d2 show ?thesis unfolding e by simp
qed

lemma twin_start:
  assumes "wf s" "\<not> is_checksum_term s" "sentence_type s = GGA" "term_number s = 3"
      and "term_offset s = 0"
  shows "\<exists>A B. feed P [(0x4E, a1), (0x2C, a2)] s = Some ([False, False], A) \<and>
           feed P [(0x53, a1), (0x2C, a2)] s = Some ([False, False], B) \<and>
           twin P A B \<and> wf A \<and> \<not> is_checksum_term A \<and> sentence_type A = GGA \<and>
           unat (term_number A) = 4 \<and> published A = published s"
proof -
  have len: "length (term_buf s) = 20" using assms(1) by (simp add: wf_def TERM_SIZE_def)
  define A where "A = s\<lparr>encoded_characters := encoded_characters s + 1 + 1,
          parity := (parity s XOR 0x4E) XOR 0x2C,
          sum_acc := sum_acc s + ucast (0x4E :: byte) + 0x2C,
          new_latitude := (if (0x4E :: byte) = 0x53 then f_neg P (new_latitude s) else new_latitude s),
          term_buf := (term_buf s)[0 := 0x4E, 1 := 0],
          term_number := 4, term_offset := 0, is_checksum_term := False\<rparr>"
  define B where "B = s\<lparr>encoded_characters := encoded_characters s + 1 + 1,
          parity := (parity s XOR 0x53) XOR 0x2C,
          sum_acc := sum_acc s + ucast (0x53 :: byte) + 0x2C,
          new_latitude := (if (0x53 :: byte) = 0x53 then f_neg P (new_latitude s) else new_latitude s),
          term_buf := (term_buf s)[0 := 0x53, 1 := 0],
          term_number := 4, term_offset := 0, is_checksum_term := False\<rparr>"
  have fa: "feed P [(0x4E, a1), (0x2C, a2)] s = Some ([False, False], A)"
    unfolding A_def by (rule hemisphere_letter_run [OF assms]) simp
  have fb: "feed P [(0x53, a1), (0x2C, a2)] s = Some ([False, False], B)"
    unfolding B_def by (rule hemisphere_letter_run [OF assms]) simp
  have sw: "(term_buf s)[0 := 0x53, 1 := 0] = ((term_buf s)[0 := 0x4E, 1 := 0])[0 := 0x53]"
    by (cases "term_buf s") simp_all
  have "B = A\<lparr>parity := (parity s XOR 0x53) XOR 0x2C, sum_acc := sum_acc s + ucast (0x53 :: byte) + 0x2C,
         new_latitude := f_neg P (new_latitude A),
         term_buf := (if term_offset A = 0 then (term_buf A)[0 := 0x53] else term_buf A)\<rparr>"
    unfolding B_def sw by (simp add: A_def)
  then have tw: "twin P A B" by (rule twinI)
  have "wf A" "\<not> is_checksum_term A" "sentence_type A = GGA" "unat (term_number A) = 4"
    "published A = published s"
    using len assms(3) by (simp_all add: A_def wf_def TERM_SIZE_def published_def)
  with fa fb tw show ?thesis by blast
qed

lemma twin_facts:
  assumes "twin P A B"
  shows "wf B = wf A" "is_checksum_term B = is_checksum_term A" "term_offset B = term_offset A"
    "sentence_type B = sentence_type A" "published B = published A"
proof -
  from assms obtain p q z where
    B: "B = A\<lparr>parity := p, sum_acc := q, new_latitude := f_neg P (new_latitude A),
         term_buf := (if term_offset A = 0 then (term_buf A)[0 := z] else term_buf A)\<rparr>"
    unfolding twin_def by blast
  show "wf B = wf A" "is_checksum_term B = is_checksum_term A" "term_offset B = term_offset A"
    "sentence_type B = sentence_type A" "published B = published A"
    by (simp_all add: B wf_def)
qed

lemma commit_twin:
  assumes "twin P A B" "sentence_type A = GGA"
  shows "published (commit now B) = published ((commit now A)\<lparr>latitude := f_neg P (new_latitude A)\<rparr>)"
    and "latitude (commit now A) = new_latitude A"
proof -
  from assms(1) obtain p q z where
    B: "B = A\<lparr>parity := p, sum_acc := q, new_latitude := f_neg P (new_latitude A),
         term_buf := (if term_offset A = 0 then (term_buf A)[0 := z] else term_buf A)\<rparr>"
    unfolding twin_def by blast
  show "published (commit now B) = published ((commit now A)\<lparr>latitude := f_neg P (new_latitude A)\<rparr>)"
    using assms(2) by (simp add: B commit_def published_def)
  show "latitude (commit now A) = new_latitude A"
    using assms(2) by (simp add: commit_def)
qed

lemma published_latitude:
  "published x = published y \<Longrightarrow> latitude x = latitude y"
  by (simp add: published_def)

lemma published_swap_latitude:
  "published x = published (y\<lparr>latitude := l\<rparr>) \<Longrightarrow>
   latitude x = l \<and> published (x\<lparr>latitude := latitude y\<rparr>) = published y"
  by (simp add: published_def)

lemma hemisphere_flip:
  assumes "wf s" "\<not> is_checksum_term s" "sentence_type s = GGA" "term_number s = 3"
      and "term_offset s = 0"
      and "\<forall>e \<in> set rest. payload_byte (fst e)" "length rest \<le> 250"
      and "ordinary_byte h1" "ordinary_byte h2" "ordinary_byte g1" "ordinary_byte g2" "end_byte t"
      and "feed P ((0x4E, a1) # (0x2C, a2) # rest @ [(0x2A, n1), (h1, n2), (h2, n3), (t, n4)]) s =
             Some (vsA, sA)" "last vsA"
      and "feed P ((0x53, a1) # (0x2C, a2) # rest @ [(0x2A, n1), (g1, n2), (g2, n3), (t, n4)]) s =
             Some (vsB, sB)" "last vsB"
  shows "latitude sB = f_neg P (latitude sA) \<and> published (sB\<lparr>latitude := latitude sA\<rparr>) = published sA"
proof -
  from twin_start [OF assms(1-5), of P a1 a2]
  obtain A B where st: "feed P [(0x4E, a1), (0x2C, a2)] s = Some ([False, False], A)"
    "feed P [(0x53, a1), (0x2C, a2)] s = Some ([False, False], B)" "twin P A B" "wf A"
    "\<not> is_checksum_term A" "sentence_type A = GGA" "unat (term_number A) = 4"
    by blast
  have b4: "4 \<le> unat (term_number A)" "unat (term_number A) + length rest \<le> 255"
    using st(7) assms(7) by simp_all
  from twin_feed [OF st(3,4,5) b4 assms(6)]
  obtain A1 B1 where r: "feed P rest A = Some (replicate (length rest) False, A1)"
    "feed P rest B = Some (replicate (length rest) False, B1)" "twin P A1 B1" "wf A1"
    "\<not> is_checksum_term A1" "sentence_type A1 = sentence_type A" "4 \<le> unat (term_number A1)"
    "unat (term_number A1) \<le> unat (term_number A) + length rest"
    by blast
  have lt: "unat (term_number A1) < 255" using r(8) st(7) assms(7) by simp
  have star: "(0x2A :: byte) = 0x2C \<or> (0x2A :: byte) = 0x3A \<or> (0x2A :: byte) = 0x2A \<or>
      (0x2A :: byte) = 0x0D \<or> (0x2A :: byte) = 0x0A" by simp
  from twin_sep [OF r(3) star r(4,5,7) lt, of n1]
  obtain A2 B2 where x: "decode P n1 0x2A A1 = Some (False, A2)"
    "decode P n1 0x2A B1 = Some (False, B2)" "twin P A2 B2" "wf A2" "is_checksum_term A2"
    "term_offset A2 = 0" "sentence_type A2 = sentence_type A1"
    by auto
  have gga: "sentence_type A2 = GGA" using x(7) r(6) st(6) by simp
  note tb = twin_facts [OF x(3)]
  have wB: "wf B2" "is_checksum_term B2" "term_offset B2 = 0"
    using tb x(4,5,6) by simp_all
  define ckA where "ckA = (if sentence_type A2 = XTE2 then parity A2
      else word_of_int (16 * hex_to_int P h1 + hex_to_int P h2))"
  define ckB where "ckB = (if sentence_type B2 = XTE2 then parity B2
      else word_of_int (16 * hex_to_int P g1 + hex_to_int P g2))"
  from checksum_tail [OF x(4,5,6) assms(8,9,12) ckA_def, of n2 n3 n4]
  obtain uA where uA: "feed P [(h1, n2), (h2, n3), (t, n4)] A2 = Some ([False, False, ckA = parity A2], uA)"
    "published uA = (if ckA = parity A2 then published (commit n4 A2) else published A2)"
    by blast
  from checksum_tail [OF wB assms(10,11,12) ckB_def, of n2 n3 n4]
  obtain uB where uB: "feed P [(g1, n2), (g2, n3), (t, n4)] B2 = Some ([False, False, ckB = parity B2], uB)"
    "published uB = (if ckB = parity B2 then published (commit n4 B2) else published B2)"
    by blast
  have sA: "feed P [(0x2A, n1), (h1, n2), (h2, n3), (t, n4)] A1 = Some ([False, False, False, ckA = parity A2], uA)"
    by (rule feed_Cons_Some [OF x(1) uA(1)])
  have sB: "feed P [(0x2A, n1), (g1, n2), (g2, n3), (t, n4)] B1 = Some ([False, False, False, ckB = parity B2], uB)"
    by (rule feed_Cons_Some [OF x(2) uB(1)])
  have fA: "feed P ([(0x4E, a1), (0x2C, a2)] @ rest @ [(0x2A, n1), (h1, n2), (h2, n3), (t, n4)]) s =
      Some ([False, False] @ replicate (length rest) False @ [False, False, False, ckA = parity A2], uA)"
    by (rule feed_append_Some [OF st(1) feed_append_Some [OF r(1) sA]])
  have fB: "feed P ([(0x53, a1), (0x2C, a2)] @ rest @ [(0x2A, n1), (g1, n2), (g2, n3), (t, n4)]) s =
      Some ([False, False] @ replicate (length rest) False @ [False, False, False, ckB = parity B2], uB)"
    by (rule feed_append_Some [OF st(2) feed_append_Some [OF r(2) sB]])
  from fA assms(13) have eA: "sA = uA"
    "vsA = [False, False] @ replicate (length rest) False @ [False, False, False, ckA = parity A2]"
    by simp_all
  from fB assms(15) have eB: "sB = uB"
    "vsB = [False, False] @ replicate (length rest) False @ [False, False, False, ckB = parity B2]"
    by simp_all
  from eA(2) assms(14) have vA: "ckA = parity A2" by simp
  from eB(2) assms(16) have vB: "ckB = parity B2" by simp
  have pA: "published sA = published (commit n4 A2)" using uA(2) vA eA(1) by simp
  have pB: "published sB = published (commit n4 B2)" using uB(2) vB eB(1) by simp
  note ct = commit_twin [OF x(3) gga, of n4]
  have la: "latitude sA = new_latitude A2"
    using published_latitude [OF pA] ct(2) by simp
  have "published sB = published ((commit n4 A2)\<lparr>latitude := f_neg P (new_latitude A2)\<rparr>)"
    using pB ct(1) by simp
  from published_swap_latitude [OF this]
  have "latitude sB = f_neg P (new_latitude A2)"
    "published (sB\<lparr>latitude := latitude (commit n4 A2)\<rparr>) = published (commit n4 A2)"
    by simp_all
  with la pA ct(2) show ?thesis by simp
qed

subsection \<open>Accesses before the term buffer\<close>

text \<open>
  Where a call stays inside the term buffer, the functions that reach the flags before it
  return what \<^verbatim>\<open>decode\<close> returns.
\<close>

lemma rd_object_inside: "0 \<le> i \<Longrightarrow> rd_object s i = rd (term_buf s) i"
  by (simp add: rd_object_def)

lemma wr_object_inside:
  "0 \<le> i \<Longrightarrow> wr_object s i v = do { t \<leftarrow> wr (term_buf s) i v; Some (s\<lparr>term_buf := t\<rparr>) }"
  by (simp add: wr_object_def)

lemma trimble_end_object_inside:
  assumes "3 \<le> uint (term_offset s)"
  shows "trimble_end_object P now c s = trimble_end P now c s"
proof -
  from assms have i: "0 \<le> uint (term_offset s) - 1" "0 \<le> uint (term_offset s) - 2"
    "0 \<le> uint (term_offset s) - 3" by simp_all
  show ?thesis
    by (simp add: trimble_end_object_def trimble_end_def Let_def
        rd_object_inside [OF i(1)] rd_object_inside [OF i(2)] rd_object_inside [OF i(3)]
        wr_object_inside [OF i(3)] cong: if_cong)
qed

lemma trimble_end_object_extends:
  assumes "trimble_end P now c s = Some r"
  shows "trimble_end_object P now c s = Some r"
proof (cases "3 \<le> uint (term_offset s)")
  case True
  with assms show ?thesis by (simp add: trimble_end_object_inside)
next
  case False
  from assms obtain p1 where p: "rd (term_buf s) (uint (term_offset s) - 1) = Some p1"
    by (auto simp add: trimble_end_def split: Option.bind_splits)
  then have i: "0 \<le> uint (term_offset s) - 1" by (simp add: rd_def split: if_splits)
  from False have "rd (term_buf s) (uint (term_offset s) - 3) = None" by (simp add: rd_def)
  with assms p have "\<not> (p1 = 16 \<and> \<not> is_checksum_term s)"
    by (auto simp add: trimble_end_def split: Option.bind_splits if_splits)
  with assms p i show ?thesis
    by (auto simp add: trimble_end_def trimble_end_object_def rd_object_inside)
qed

lemma decode_object_extends:
  "decode P now c s = Some r \<Longrightarrow> decode_object P now c s = Some r"
  by (auto simp add: decode_def decode_object_def Let_def trimble_end_object_extends)

lemma feed_object_extends:
  "feed P es s = Some (vs, s') \<Longrightarrow>
   \<exists>tr. feed_object P es s = Some (tr, s') \<and> map fst tr = vs"
proof (induction es arbitrary: s vs)
  case Nil
  then show ?case by simp
next
  case (Cons e es)
  obtain c now where e: "e = (c, now)" by (cases e)
  from Cons.prems e obtain v s1 ws where
    d: "decode P now c s = Some (v, s1)" and f: "feed P es s1 = Some (ws, s')"
    and r: "vs = v # ws"
    by (auto split: Option.bind_splits)
  from Cons.IH [OF f] obtain tr where t: "feed_object P es s1 = Some (tr, s')" "map fst tr = ws"
    by blast
  from decode_object_extends [OF d] t e r show ?case by simp
qed

section \<open>The claims\<close>






text \<open>
  Claim C3. Over a sentence fed to a decoder in any state, the parity accumulator ends as
  the XOR of the payload bytes in the checksum domain: the start marker resets it, a
  comma and every ordinary byte of the payload are XORed in however long their term is,
  the terminators \<^verbatim>\<open>:\<close>, \<^verbatim>\<open>*\<close>, CR and LF and the bytes of the checksum token are not.
  For a sentence type other than the binary variant XTE2, the value compared with it is
  \<^verbatim>\<open>16 * hex_to_int(term[0]) + hex_to_int(term[1])\<close> of the checksum token, and the result of
  the last call is that comparison.
\<close>

theorem parity_is_xor_of_checksum_domain:
  assumes "length (term_buf s) = TERM_SIZE" "b0 = 0x24 \<or> b0 = 0x40"
      and "\<forall>e \<in> set pay. payload_byte (fst e)"
      and "ordinary_byte h1" "ordinary_byte h2" "end_byte t"
  shows "\<exists>s'. feed P ((b0, n0) # pay @ [(0x2A, n1), (h1, n2), (h2, n3), (t, n4)]) s =
           Some (replicate (length pay + 4) False @ [checksum s' = parity s'], s') \<and>
         parity s' = xor_run 0 (map fst pay) \<and>
         (sentence_type s' \<noteq> XTE2 \<longrightarrow>
            checksum s' = word_of_int (16 * hex_to_int P h1 + hex_to_int P h2)) \<and>
         in_domain 0x2C \<and> \<not> in_domain 0x3A \<and> \<not> in_domain 0x2A \<and> \<not> in_domain 0x0D \<and>
         \<not> in_domain 0x0A \<and> (\<forall>c. ordinary_byte c \<longrightarrow> in_domain c)"
proof -
  from sentence_head [OF assms(1,2,3), of P n0 n1]
  obtain u where u: "feed P ((b0, n0) # pay @ [(0x2A, n1)]) s = Some (replicate (length pay + 2) False, u)"
    "wf u" "is_checksum_term u" "term_offset u = 0" "parity u = xor_run 0 (map fst pay)" by blast
  define ck where "ck = (if sentence_type u = XTE2 then parity u
                 else word_of_int (16 * hex_to_int P h1 + hex_to_int P h2))"
  from checksum_tail [OF u(2,3,4) assms(4,5,6) ck_def, of n2 n3 n4]
  obtain u' where u': "feed P [(h1, n2), (h2, n3), (t, n4)] u = Some ([False, False, ck = parity u], u')"
    "checksum u' = ck" "parity u' = parity u" "sentence_type u' = sentence_type u"
    by blast
  from feed_append_Some [OF u(1) u'(1)]
  have "feed P (((b0, n0) # pay @ [(0x2A, n1)]) @ [(h1, n2), (h2, n3), (t, n4)]) s =
          Some (replicate (length pay + 2) False @ [False, False, ck = parity u], u')" .
  moreover have "replicate (length pay + 2) False @ [False, False, ck = parity u] =
      replicate (length pay + 4) False @ [checksum u' = parity u']"
    using u'(2,3) by (simp add: replicate_add eval_nat_numeral replicate_app_Cons_same)
  ultimately have f: "feed P ((b0, n0) # pay @ [(0x2A, n1), (h1, n2), (h2, n3), (t, n4)]) s =
           Some (replicate (length pay + 4) False @ [checksum u' = parity u'], u')"
    by simp
  have p: "parity u' = xor_run 0 (map fst pay)" using u'(3) u(5) by simp
  have c: "sentence_type u' \<noteq> XTE2 \<longrightarrow>
            checksum u' = word_of_int (16 * hex_to_int P h1 + hex_to_int P h2)"
    using u'(2,4) by (simp add: ck_def)
  have d: "in_domain 0x2C \<and> \<not> in_domain 0x3A \<and> \<not> in_domain 0x2A \<and> \<not> in_domain 0x0D \<and>
         \<not> in_domain 0x0A \<and> (\<forall>c. ordinary_byte c \<longrightarrow> in_domain c)"
    by (simp add: in_domain_def ordinary_byte_def)
  from f p c d show ?thesis by blast
qed

theorem parity_is_xor_of_checksum_domain_witness:
  "\<exists>s'. feed (test_platform True)
          ((0x24, 7) # at_time 7 (ascii ''GPVTG,054.7,T:overlong term of ordinary bytes'') @
           [(0x2A, 7), (0x34, 7), (0x30, 7), (0x0D, 7)]) (fresh True) =
           Some (replicate 49 False @ [True], s') \<and>
         parity s' = 0x40 \<and> sentence_type s' = VTG \<and> checksum s' = 0x40"
proof -
  let ?pay = "at_time 7 (ascii ''GPVTG,054.7,T:overlong term of ordinary bytes'')"
  let ?all = "(0x24, 7) # ?pay @ [(0x2A, 7), (0x34, 7), (0x30, 7), (0x0D, 7)]"
  have a1: "length (term_buf (fresh True)) = TERM_SIZE"
    by (simp add: fresh_def FarmGPS_init_def blank_memory_def TERM_SIZE_def GPS_NO_STATS_def)
  have a2: "(0x24 :: byte) = 0x24 \<or> (0x24 :: byte) = 0x40" by simp
  have a3: "\<forall>e \<in> set ?pay. payload_byte (fst e)"
    by (simp add: ascii_def at_time_def payload_byte_def)
  have a4: "ordinary_byte 0x34" "ordinary_byte 0x30" "end_byte 0x0D"
    by (simp_all add: ordinary_byte_def end_byte_def)
  have x: "xor_run 0 (map fst ?pay) = 0x40" by code_simp
  have h: "(word_of_int (16 * hex_to_int (test_platform True) 0x34 + hex_to_int (test_platform True) 0x30) :: byte) = 0x40"
    by code_simp
  have len: "length ?pay + 4 = 49" by (simp add: ascii_def at_time_def)
  have ty: "map_option (\<lambda>r. sentence_type (snd r)) (feed (test_platform True) ?all (fresh True)) = Some VTG"
    by code_simp
  from parity_is_xor_of_checksum_domain [OF a1 a2 a3 a4, of "test_platform True" 7 7 7 7 7]
  obtain s' where s': "feed (test_platform True) ?all (fresh True) =
      Some (replicate 49 False @ [checksum s' = parity s'], s')" "parity s' = 0x40"
    "sentence_type s' \<noteq> XTE2 \<longrightarrow> checksum s' = 0x40"
    unfolding len x h by blast
  from ty s'(1) have "sentence_type s' = VTG" by simp
  with s' show ?thesis by auto
qed

text \<open>
  Claim C4. \<^verbatim>\<open>decode\<close> receives the byte 3 outside a checksum term, with at least three
  bytes buffered and the last of them 16. It subtracts the three trailer bytes from
  \<^verbatim>\<open>sum\<close>. If what remains equals \<^verbatim>\<open>256 * term[term_offset - 3] + term[term_offset - 2]\<close>,
  it cuts the trailer off the term, completes the term once as payload (which returns
  false) and once as checksum term, and returns the second result; for the type XTE2 that
  result is true, with \<^verbatim>\<open>checksum\<close> equal to \<^verbatim>\<open>parity\<close>. If the sum differs, the call
  returns false and starts the next term. With a last buffered byte other than 16 the byte
  3 is an ordinary character: stored if there is room, XORed into \<^verbatim>\<open>parity\<close>, added to
  \<^verbatim>\<open>sum\<close>.
\<close>

theorem trimble_trailer:
  "(wf s \<and> \<not> is_checksum_term s \<and> 3 \<le> unat (term_offset s) \<and> trailer_mark s = 16 \<and>
    sum_without_trailer s = 256 * ucast (trailer_hi s) + ucast (trailer_lo s) \<longrightarrow>
      (\<exists>s2 v s3.
         parse_term P now (s\<lparr>encoded_characters := encoded_characters s + 1,
                             sum_acc := sum_without_trailer s,
                             term_buf := (term_buf s)[unat (term_offset s) - 3 := 0]\<rparr>) = Some (False, s2) \<and>
         parse_term P now (s2\<lparr>is_checksum_term := True\<rparr>) = Some (v, s3) \<and>
         decode P now 3 s = Some (v, s3\<lparr>term_number := term_number s3 + 1, term_offset := 0\<rparr>) \<and>
         (sentence_type s2 = XTE2 \<longrightarrow> v \<and> checksum s3 = parity s3))) \<and>
   (wf s \<and> \<not> is_checksum_term s \<and> 3 \<le> unat (term_offset s) \<and> trailer_mark s = 16 \<and>
    sum_without_trailer s \<noteq> 256 * ucast (trailer_hi s) + ucast (trailer_lo s) \<longrightarrow>
      decode P now 3 s =
        Some (False, s\<lparr>encoded_characters := encoded_characters s + 1,
                       sum_acc := sum_without_trailer s,
                       term_number := term_number s + 1, term_offset := 0\<rparr>)) \<and>
   (wf s \<and> \<not> is_checksum_term s \<and> 1 \<le> unat (term_offset s) \<and> trailer_mark s \<noteq> 16 \<longrightarrow>
      decode P now 3 s =
        Some (False, s\<lparr>encoded_characters := encoded_characters s + 1,
                       term_buf := (if unat (term_offset s) < TERM_SIZE - 1
                                    then (term_buf s)[unat (term_offset s) := 3] else term_buf s),
                       term_offset := (if unat (term_offset s) < TERM_SIZE - 1
                                       then term_offset s + 1 else term_offset s),
                       parity := parity s XOR 3, sum_acc := sum_acc s + 3\<rparr>))"
proof (intro conjI impI)
  assume "wf s \<and> \<not> is_checksum_term s \<and> 3 \<le> unat (term_offset s) \<and> trailer_mark s = 16 \<and>
    sum_without_trailer s = 256 * ucast (trailer_hi s) + ucast (trailer_lo s)"
  then show "\<exists>s2 v s3.
         parse_term P now (s\<lparr>encoded_characters := encoded_characters s + 1,
                             sum_acc := sum_without_trailer s,
                             term_buf := (term_buf s)[unat (term_offset s) - 3 := 0]\<rparr>) = Some (False, s2) \<and>
         parse_term P now (s2\<lparr>is_checksum_term := True\<rparr>) = Some (v, s3) \<and>
         decode P now 3 s = Some (v, s3\<lparr>term_number := term_number s3 + 1, term_offset := 0\<rparr>) \<and>
         (sentence_type s2 = XTE2 \<longrightarrow> v \<and> checksum s3 = parity s3)"
    using trimble_match [of s P now] by blast
next
  assume "wf s \<and> \<not> is_checksum_term s \<and> 3 \<le> unat (term_offset s) \<and> trailer_mark s = 16 \<and>
    sum_without_trailer s \<noteq> 256 * ucast (trailer_hi s) + ucast (trailer_lo s)"
  then show "decode P now 3 s =
        Some (False, s\<lparr>encoded_characters := encoded_characters s + 1,
                       sum_acc := sum_without_trailer s,
                       term_number := term_number s + 1, term_offset := 0\<rparr>)"
    using trimble_sum_mismatch [of s P now] by blast
next
  assume "wf s \<and> \<not> is_checksum_term s \<and> 1 \<le> unat (term_offset s) \<and> trailer_mark s \<noteq> 16"
  then show "decode P now 3 s =
        Some (False, s\<lparr>encoded_characters := encoded_characters s + 1,
                       term_buf := (if unat (term_offset s) < TERM_SIZE - 1
                                    then (term_buf s)[unat (term_offset s) := 3] else term_buf s),
                       term_offset := (if unat (term_offset s) < TERM_SIZE - 1
                                       then term_offset s + 1 else term_offset s),
                       parity := parity s XOR 3, sum_acc := sum_acc s + 3\<rparr>)"
    using etx_ordinary [of s P now] by blast
qed

theorem trimble_trailer_witness:
  "(\<exists>s2 v s3.
      parse_term (test_platform False) 7
        ((frame_state (565 :: 16 word))\<lparr>encoded_characters := 1, sum_acc := 402,
            term_buf := ascii ''ROXTE'' @ [0, 146, 16] @ replicate 12 0\<rparr>) = Some (False, s2) \<and>
      parse_term (test_platform False) 7 (s2\<lparr>is_checksum_term := True\<rparr>) = Some (v, s3) \<and>
      decode (test_platform False) 7 3 (frame_state 565) =
        Some (v, s3\<lparr>term_number := term_number s3 + 1, term_offset := 0\<rparr>) \<and>
      sentence_type s2 = XTE2 \<and> v \<and> checksum s3 = parity s3) \<and>
   map_option (\<lambda>r. (fst r, xte (snd r), new_XTE_data (snd r), sum_acc (snd r)))
     (decode (test_platform False) 7 3 (frame_state (565 :: 16 word))) = Some (True, 5, True, 402) \<and>
   decode (test_platform False) 7 3 (frame_state (564 :: 16 word)) =
     Some (False, (frame_state 564)\<lparr>encoded_characters := 1, sum_acc := 401, term_number := 1,
                     term_offset := 0\<rparr>) \<and>
   decode (test_platform False) 7 3 ((frame_state (565 :: 16 word))\<lparr>term_offset := 7\<rparr>) =
     Some (False, (frame_state 565)\<lparr>encoded_characters := 1,
                     term_buf := ascii ''ROXTE'' @ [1, 146, 3] @ replicate 12 0,
                     term_offset := 8, parity := 3, sum_acc := 568\<rparr>)"
proof -
  let ?P = "test_platform False"
  let ?s = "frame_state (565 :: 16 word)"
  have pre: "wf ?s \<and> \<not> is_checksum_term ?s \<and> 3 \<le> unat (term_offset ?s) \<and> trailer_mark ?s = 16 \<and>
      sum_without_trailer ?s = 256 * ucast (trailer_hi ?s) + ucast (trailer_lo ?s)"
    by code_simp
  have e: "?s\<lparr>encoded_characters := encoded_characters ?s + 1, sum_acc := sum_without_trailer ?s,
            term_buf := (term_buf ?s)[unat (term_offset ?s) - 3 := 0]\<rparr> =
       ?s\<lparr>encoded_characters := 1, sum_acc := 402, term_buf := ascii ''ROXTE'' @ [0, 146, 16] @ replicate 12 0\<rparr>"
    by code_simp
  from trimble_trailer [THEN conjunct1, rule_format, OF pre, of ?P 7]
  obtain s2 v s3 where r:
    "parse_term ?P 7 (?s\<lparr>encoded_characters := 1, sum_acc := 402,
        term_buf := ascii ''ROXTE'' @ [0, 146, 16] @ replicate 12 0\<rparr>) = Some (False, s2)"
    "parse_term ?P 7 (s2\<lparr>is_checksum_term := True\<rparr>) = Some (v, s3)"
    "decode ?P 7 3 ?s = Some (v, s3\<lparr>term_number := term_number s3 + 1, term_offset := 0\<rparr>)"
    "sentence_type s2 = XTE2 \<longrightarrow> v \<and> checksum s3 = parity s3"
    unfolding e by blast
  have "map_option (\<lambda>r. sentence_type (snd r)) (parse_term ?P 7 (?s\<lparr>encoded_characters := 1,
      sum_acc := 402, term_buf := ascii ''ROXTE'' @ [0, 146, 16] @ replicate 12 0\<rparr>)) = Some XTE2"
    by code_simp
  with r(1) have ty: "sentence_type s2 = XTE2" by simp
  have ev: "map_option (\<lambda>r. (fst r, xte (snd r), new_XTE_data (snd r), sum_acc (snd r)))
     (decode ?P 7 3 ?s) = Some (True, 5, True, 402)"
    by code_simp
  let ?m = "frame_state (564 :: 16 word)"
  have pre2: "wf ?m \<and> \<not> is_checksum_term ?m \<and> 3 \<le> unat (term_offset ?m) \<and> trailer_mark ?m = 16 \<and>
      sum_without_trailer ?m \<noteq> 256 * ucast (trailer_hi ?m) + ucast (trailer_lo ?m)"
    by code_simp
  have e2: "?m\<lparr>encoded_characters := encoded_characters ?m + 1, sum_acc := sum_without_trailer ?m,
       term_number := term_number ?m + 1, term_offset := 0\<rparr> =
     ?m\<lparr>encoded_characters := 1, sum_acc := 401, term_number := 1, term_offset := 0\<rparr>"
    by code_simp
  from trimble_trailer [THEN conjunct2, THEN conjunct1, rule_format, OF pre2, of ?P 7]
  have mm: "decode ?P 7 3 ?m =
     Some (False, ?m\<lparr>encoded_characters := 1, sum_acc := 401, term_number := 1, term_offset := 0\<rparr>)"
    unfolding e2 .
  let ?o = "?s\<lparr>term_offset := 7\<rparr>"
  have pre3: "wf ?o \<and> \<not> is_checksum_term ?o \<and> 1 \<le> unat (term_offset ?o) \<and> trailer_mark ?o \<noteq> 16"
    by code_simp
  have e3: "?o\<lparr>encoded_characters := encoded_characters ?o + 1,
                       term_buf := (if unat (term_offset ?o) < TERM_SIZE - 1
                                    then (term_buf ?o)[unat (term_offset ?o) := 3] else term_buf ?o),
                       term_offset := (if unat (term_offset ?o) < TERM_SIZE - 1
                                       then term_offset ?o + 1 else term_offset ?o),
                       parity := parity ?o XOR 3, sum_acc := sum_acc ?o + 3\<rparr> =
       ?s\<lparr>encoded_characters := 1, term_buf := ascii ''ROXTE'' @ [1, 146, 3] @ replicate 12 0,
                     term_offset := 8, parity := 3, sum_acc := 568\<rparr>"
    by code_simp
  from trimble_trailer [THEN conjunct2, THEN conjunct2, rule_format, OF pre3, of ?P 7]
  have oo: "decode ?P 7 3 ?o =
     Some (False, ?s\<lparr>encoded_characters := 1, term_buf := ascii ''ROXTE'' @ [1, 146, 3] @ replicate 12 0,
                     term_offset := 8, parity := 3, sum_acc := 568\<rparr>)"
    unfolding e3 .
  from r ty ev mm oo show ?thesis by blast
qed

text \<open>
  Claim C5. When term 0 of a sentence is completed (\<^verbatim>\<open>parse_term\<close> outside a checksum
  term with \<^verbatim>\<open>term_number == 0\<close>, the term buffer holding a NUL-terminated string),
  the call returns false and sets the sentence type by equality of the whole token with
  \<^verbatim>\<open>GPGGA\<close>, \<^verbatim>\<open>GPVTG\<close>, \<^verbatim>\<open>GPXTE\<close> or \<^verbatim>\<open>ROXTE\<close>, and to OTHER for any other
  token. The helper \<^verbatim>\<open>strcmp\<close> returns true exactly when its two strings are equal up to
  their NUL terminators.
\<close>

theorem sentence_type_by_exact_match:
  "(\<not> is_checksum_term s \<and> term_number s = 0 \<and> 0 \<in> set (term_buf s) \<longrightarrow>
      parse_term P now s =
        Some (False, s\<lparr>sentence_type := token_type (takeWhile (\<lambda>b. b \<noteq> 0) (term_buf s))\<rparr>)) \<and>
   (0 \<in> set str1 \<and> 0 \<in> set str2 \<longrightarrow>
      strcmp str1 str2 =
        Some (takeWhile (\<lambda>b. b \<noteq> 0) str1 = takeWhile (\<lambda>b. b \<noteq> 0) str2))"
proof (intro conjI impI)
  assume "\<not> is_checksum_term s \<and> term_number s = 0 \<and> 0 \<in> set (term_buf s)"
  then show "parse_term P now s =
        Some (False, s\<lparr>sentence_type := token_type (takeWhile (\<lambda>b. b \<noteq> 0) (term_buf s))\<rparr>)"
    by (simp add: parse_term_def classify_Some)
next
  assume "0 \<in> set str1 \<and> 0 \<in> set str2"
  then show "strcmp str1 str2 =
        Some (takeWhile (\<lambda>b. b \<noteq> 0) str1 = takeWhile (\<lambda>b. b \<noteq> 0) str2)"
    by (simp add: strcmp_c_str)
qed

theorem sentence_type_by_exact_match_witness:
  "parse_term (test_platform True) 7 (blank_memory\<lparr>term_buf := c_literal ''GPGGA'' @ replicate 14 0\<rparr>) =
     Some (False, blank_memory\<lparr>term_buf := c_literal ''GPGGA'' @ replicate 14 0, sentence_type := GGA\<rparr>) \<and>
   parse_term (test_platform True) 7 (blank_memory\<lparr>term_buf := c_literal ''GPGG'' @ replicate 15 0\<rparr>) =
     Some (False, blank_memory\<lparr>term_buf := c_literal ''GPGG'' @ replicate 15 0, sentence_type := OTHER\<rparr>) \<and>
   parse_term (test_platform True) 7 (blank_memory\<lparr>term_buf := c_literal ''GPGGAX'' @ replicate 13 0\<rparr>) =
     Some (False, blank_memory\<lparr>term_buf := c_literal ''GPGGAX'' @ replicate 13 0, sentence_type := OTHER\<rparr>) \<and>
   parse_term (test_platform True) 7 (blank_memory\<lparr>term_buf := c_literal ''gpgga'' @ replicate 14 0\<rparr>) =
     Some (False, blank_memory\<lparr>term_buf := c_literal ''gpgga'' @ replicate 14 0, sentence_type := OTHER\<rparr>) \<and>
   strcmp (c_literal ''GPVTG'') GPVTG_TERM = Some True \<and>
   strcmp (c_literal ''GPVT'') GPVTG_TERM = Some False \<and>
   strcmp (c_literal ''GPVTGG'') GPVTG_TERM = Some False"
proof -
  have t: "token_type (ascii ''GPGGA'') = GGA" "token_type (ascii ''GPGG'') = OTHER"
    "token_type (ascii ''GPGGAX'') = OTHER" "token_type (ascii ''gpgga'') = OTHER"
    by (simp_all add: token_type_def ascii_def)
  have z: "\<not> is_checksum_term (blank_memory\<lparr>term_buf := b\<rparr>) \<and>
       term_number (blank_memory\<lparr>term_buf := b\<rparr>) = 0" for b
    by (simp add: blank_memory_def)
  note w = sentence_type_by_exact_match [THEN conjunct1, rule_format, of _ "test_platform True" 7]
  have p1: "parse_term (test_platform True) 7 (blank_memory\<lparr>term_buf := c_literal ''GPGGA'' @ replicate 14 0\<rparr>) =
     Some (False, blank_memory\<lparr>term_buf := c_literal ''GPGGA'' @ replicate 14 0, sentence_type := GGA\<rparr>)"
    using w [of "blank_memory\<lparr>term_buf := c_literal ''GPGGA'' @ replicate 14 0\<rparr>"] z t
    by (simp add: c_literal_def ascii_def)
  have p2: "parse_term (test_platform True) 7 (blank_memory\<lparr>term_buf := c_literal ''GPGG'' @ replicate 15 0\<rparr>) =
     Some (False, blank_memory\<lparr>term_buf := c_literal ''GPGG'' @ replicate 15 0, sentence_type := OTHER\<rparr>)"
    using w [of "blank_memory\<lparr>term_buf := c_literal ''GPGG'' @ replicate 15 0\<rparr>"] z t
    by (simp add: c_literal_def ascii_def)
  have p3: "parse_term (test_platform True) 7 (blank_memory\<lparr>term_buf := c_literal ''GPGGAX'' @ replicate 13 0\<rparr>) =
     Some (False, blank_memory\<lparr>term_buf := c_literal ''GPGGAX'' @ replicate 13 0, sentence_type := OTHER\<rparr>)"
    using w [of "blank_memory\<lparr>term_buf := c_literal ''GPGGAX'' @ replicate 13 0\<rparr>"] z t
    by (simp add: c_literal_def ascii_def)
  have p4: "parse_term (test_platform True) 7 (blank_memory\<lparr>term_buf := c_literal ''gpgga'' @ replicate 14 0\<rparr>) =
     Some (False, blank_memory\<lparr>term_buf := c_literal ''gpgga'' @ replicate 14 0, sentence_type := OTHER\<rparr>)"
    using w [of "blank_memory\<lparr>term_buf := c_literal ''gpgga'' @ replicate 14 0\<rparr>"] z t
    by (simp add: c_literal_def ascii_def)
  note q = sentence_type_by_exact_match [THEN conjunct2, rule_format]
  have q1: "strcmp (c_literal ''GPVTG'') GPVTG_TERM = Some True"
    using q [of "c_literal ''GPVTG''" GPVTG_TERM] by (simp add: GPVTG_TERM_def c_literal_def ascii_def)
  have q2: "strcmp (c_literal ''GPVT'') GPVTG_TERM = Some False"
    using q [of "c_literal ''GPVT''" GPVTG_TERM] by (simp add: GPVTG_TERM_def c_literal_def ascii_def)
  have q3: "strcmp (c_literal ''GPVTGG'') GPVTG_TERM = Some False"
    using q [of "c_literal ''GPVTGG''" GPVTG_TERM] by (simp add: GPVTG_TERM_def c_literal_def ascii_def)
  from p1 p2 p3 p4 q1 q2 q3 show ?thesis by blast
qed

text \<open>
  Claim C6. From a newly constructed decoder, every call of \<^verbatim>\<open>decode\<close> on a stream
  without the byte 3 returns, and after every call that returns, on any stream,
  \<^verbatim>\<open>term_offset\<close> is at most 19 and the buffer still has its 20 bytes. An ordinary
  byte that arrives when the cursor is at 19 is not stored: the buffer and the cursor stay
  as they are, the byte is XORed into \<^verbatim>\<open>parity\<close> unless the term is the checksum
  term, and it is added to \<^verbatim>\<open>sum\<close>.
\<close>

theorem term_offset_bounded:
  "(length (term_buf m) = TERM_SIZE \<and> (\<forall>e \<in> set es. fst e \<noteq> 3) \<longrightarrow>
      feed P es (FarmGPS_init P m) \<noteq> None) \<and>
   (length (term_buf m) = TERM_SIZE \<and> feed P es (FarmGPS_init P m) = Some (vs, s') \<longrightarrow>
      unat (term_offset s') \<le> TERM_SIZE - 1 \<and> length (term_buf s') = TERM_SIZE) \<and>
   (wf s \<and> unat (term_offset s) = TERM_SIZE - 1 \<and> ordinary_byte c \<longrightarrow>
      decode P now c s =
        Some (False, s\<lparr>encoded_characters := encoded_characters s + 1,
                       parity := (if is_checksum_term s then parity s else parity s XOR c),
                       sum_acc := sum_acc s + ucast c\<rparr>))"
proof (intro conjI impI)
  assume "length (term_buf m) = TERM_SIZE \<and> (\<forall>e \<in> set es. fst e \<noteq> 3)"
  then show "feed P es (FarmGPS_init P m) \<noteq> None"
    using feed_total [of "FarmGPS_init P m" es P] by (simp add: init_wf)
next
  assume a: "length (term_buf m) = TERM_SIZE \<and> feed P es (FarmGPS_init P m) = Some (vs, s')"
  then have "wf (FarmGPS_init P m)" by (simp add: init_wf)
  from feed_wf [OF this] a have "wf s'" by blast
  then show "unat (term_offset s') \<le> TERM_SIZE - 1" "length (term_buf s') = TERM_SIZE"
    by (auto simp add: wf_def)
next
  assume a: "wf s \<and> unat (term_offset s) = TERM_SIZE - 1 \<and> ordinary_byte c"
  then have "decode P now c s = ordinary c (bump s)" by (simp add: decode_ordinary_eq)
  with a show "decode P now c s =
        Some (False, s\<lparr>encoded_characters := encoded_characters s + 1,
                       parity := (if is_checksum_term s then parity s else parity s XOR c),
                       sum_acc := sum_acc s + ucast c\<rparr>)"
    by (simp add: ordinary_def bump_def TERM_SIZE_def Let_def)
qed

theorem term_offset_bounded_witness:
  "(\<exists>vs s'. feed (test_platform True) (at_time 7 (ascii ''$GPGGA,a term of more than 19 bytes'')) (fresh True) =
        Some (vs, s') \<and>
      unat (term_offset s') \<le> TERM_SIZE - 1 \<and> length (term_buf s') = TERM_SIZE) \<and>
   map_option (\<lambda>r. term_offset (snd r))
     (feed (test_platform True) (at_time 7 (ascii ''$GPGGA,a term of more than 19 bytes'')) (fresh True)) = Some 19 \<and>
   decode (test_platform True) 7 0x41 (blank_memory\<lparr>term_offset := 19\<rparr>) =
     Some (False, blank_memory\<lparr>term_offset := 19, encoded_characters := 1, parity := 0x41,
                               sum_acc := 65\<rparr>)"
proof -
  let ?es = "at_time 7 (ascii ''$GPGGA,a term of more than 19 bytes'')"
  have l: "length (term_buf blank_memory) = TERM_SIZE"
    by (simp add: blank_memory_def TERM_SIZE_def)
  have n3: "\<forall>e \<in> set ?es. fst e \<noteq> 3" by (simp add: ascii_def at_time_def)
  from term_offset_bounded [THEN conjunct1, rule_format, of blank_memory ?es "test_platform True"] l n3
  have "feed (test_platform True) ?es (fresh True) \<noteq> None" by (simp add: fresh_def)
  then obtain vs s' where f: "feed (test_platform True) ?es (fresh True) = Some (vs, s')"
    by auto
  from term_offset_bounded [THEN conjunct2, THEN conjunct1, rule_format,
      of blank_memory "test_platform True" ?es vs s'] l f
  have b: "unat (term_offset s') \<le> TERM_SIZE - 1 \<and> length (term_buf s') = TERM_SIZE"
    by (simp add: fresh_def)
  have o: "map_option (\<lambda>r. term_offset (snd r)) (feed (test_platform True) ?es (fresh True)) = Some 19"
    by code_simp
  have w: "wf (blank_memory\<lparr>term_offset := 19\<rparr>) \<and>
      unat (term_offset (blank_memory\<lparr>term_offset := 19\<rparr>)) = TERM_SIZE - 1 \<and> ordinary_byte 0x41"
    by (simp add: wf_def blank_memory_def TERM_SIZE_def ordinary_byte_def)
  from term_offset_bounded [THEN conjunct2, THEN conjunct2, rule_format, OF w, of "test_platform True" 7]
  have d: "decode (test_platform True) 7 0x41 (blank_memory\<lparr>term_offset := 19\<rparr>) =
     Some (False, blank_memory\<lparr>term_offset := 19, encoded_characters := 1, parity := 0x41,
                               sum_acc := 65\<rparr>)"
    by (simp add: blank_memory_def)
  from f b o d show ?thesis by blast
qed

text \<open>
  Claim C7, as stated, fails: the header defines \<^verbatim>\<open>GPS_NO_STATS\<close>, so the increments
  of \<^verbatim>\<open>good_sentences\<close> and \<^verbatim>\<open>failed_checksum\<close> in \<^verbatim>\<open>parse_term\<close> are compiled
  out. The sentence \<^verbatim>\<open>$*00\<close> passes its checksum and \<^verbatim>\<open>$*01\<close> fails it, and both
  counters stay what they were.
\<close>

theorem counters_not_incremented:
  "map_option fst (feed (test_platform True) (at_time 7 (ascii ''$*00'' @ [0x0D])) (fresh True)) =
     Some [False, False, False, False, True] \<and>
   map_option (\<lambda>r. good_sentences (snd r))
     (feed (test_platform True) (at_time 7 (ascii ''$*00'' @ [0x0D])) (fresh True)) = Some 0 \<and>
   good_sentences (fresh True) = 0 \<and>
   map_option fst (feed (test_platform True) (at_time 7 (ascii ''$*01'' @ [0x0D])) (fresh True)) =
     Some [False, False, False, False, False] \<and>
   map_option (\<lambda>r. failed_checksum (snd r))
     (feed (test_platform True) (at_time 7 (ascii ''$*01'' @ [0x0D])) (fresh True)) = Some 0 \<and>
   failed_checksum (fresh True) = 0"
  by code_simp

text \<open>
  Claim C7, amended. With \<^verbatim>\<open>GPS_NO_STATS\<close> defined, as the header defines it, a call
  of \<^verbatim>\<open>decode\<close> that returns leaves the success counter \<^verbatim>\<open>good_sentences\<close> and the
  failure counter \<^verbatim>\<open>failed_checksum\<close> unchanged, whether or not a checksum
  comparison matched, and increments the counter of processed bytes
  \<^verbatim>\<open>encoded_characters\<close> by one (modulo \<open>2 ^ 32\<close>).
\<close>

theorem only_byte_counter_counts:
  "wf s \<and> decode P now c s = Some (v, s') \<longrightarrow>
     encoded_characters s' = encoded_characters s + 1 \<and>
     good_sentences s' = good_sentences s \<and> failed_checksum s' = failed_checksum s"
  using decode_keeps [of s P now c v s'] by blast

theorem only_byte_counter_counts_witness:
  "decode (test_platform True) 7 0x0D
      (blank_memory\<lparr>term_buf := ascii ''00'' @ replicate 18 0, term_offset := 2, is_checksum_term := True\<rparr>) =
     Some (True, blank_memory\<lparr>term_buf := ascii ''00'' @ replicate 18 0, term_offset := 0,
                   is_checksum_term := False, term_number := 1, sum_acc := 13,
                   encoded_characters := 1\<rparr>) \<and>
   encoded_characters (blank_memory\<lparr>term_buf := ascii ''00'' @ replicate 18 0, term_offset := 0,
                   is_checksum_term := False, term_number := 1, sum_acc := 13,
                   encoded_characters := 1\<rparr>) = encoded_characters blank_memory + 1 \<and>
   good_sentences (blank_memory\<lparr>term_buf := ascii ''00'' @ replicate 18 0, term_offset := 0,
                   is_checksum_term := False, term_number := 1, sum_acc := 13,
                   encoded_characters := 1\<rparr>) = good_sentences blank_memory"
proof -
  let ?s = "blank_memory\<lparr>term_buf := ascii ''00'' @ replicate 18 0, term_offset := 2, is_checksum_term := True\<rparr>"
  let ?s' = "blank_memory\<lparr>term_buf := ascii ''00'' @ replicate 18 0, term_offset := 0,
                   is_checksum_term := False, term_number := 1, sum_acc := 13,
                   encoded_characters := 1\<rparr>"
  have d: "decode (test_platform True) 7 0x0D ?s = Some (True, ?s')" by code_simp
  have w: "wf ?s" by (simp add: wf_def ascii_def TERM_SIZE_def)
  from only_byte_counter_counts [rule_format, of ?s "test_platform True" 7 "0x0D" True ?s'] w d
  have "encoded_characters ?s' = encoded_characters ?s + 1 \<and> good_sentences ?s' = good_sentences ?s"
    by blast
  then have "encoded_characters ?s' = encoded_characters blank_memory + 1 \<and>
      good_sentences ?s' = good_sentences blank_memory" by simp
  with d show ?thesis by blast
qed

text \<open>
  Claim C8 fails on the code. The flags are set by a passed checksum and cleared by the
  accessors, but the label \<^verbatim>\<open>case 3\<close> of \<^verbatim>\<open>decode\<close> clears one too: with one byte
  buffered, that byte 16, and the sum 273, the byte 3 passes the test of the frame sum on
  \<^verbatim>\<open>term[-1]\<close> and \<^verbatim>\<open>term[-2]\<close> and stores 0 in \<^verbatim>\<open>term[-2]\<close>, the flag
  \<^verbatim>\<open>new_VTG_data\<close>. Below, a newly constructed decoder reads a valid VTG sentence, which
  sets the flag, and then such a trailer; the call for the byte 3 returns false and leaves
  the flag cleared, so the first read of \<^verbatim>\<open>got_new_VTG_data\<close> after the sentence
  returns false. The first stream is for a target where \<^verbatim>\<open>char\<close> is unsigned and uses
  the byte 191 to reset the sum; the second is for signed \<^verbatim>\<open>char\<close> and a 16-bit
  \<^verbatim>\<open>int\<close>, where 256 bytes ahead of the sentence bring the sum around. Each entry
  shown is the result of a call with the flags of GGA, VTG and XTE after it, from the call
  that ends the sentence on.
\<close>

theorem etx_clears_unread_flag:
  "map_option (\<lambda>r. (drop 9 (fst r), fst (got_new_VTG_data (snd r))))
     (feed_object (test_platform False)
        (at_time 7 (ascii ''$GPVTG*52'' @ [0x0D, 0xBF, 0xF4, 0x0D, 0x10, 0x03])) (fresh False)) =
     Some ([(True, False, True, False), (False, False, True, False), (False, False, True, False),
            (False, False, True, False), (False, False, True, False),
            (False, False, False, False)], False) \<and>
   map_option (\<lambda>r. (drop 265 (fst r), fst (got_new_VTG_data (snd r))))
     (feed_object (test_platform True)
        (at_time 7 (replicate 255 0xFF @ [0xB6] @ ascii ''$GPVTG*52'' @ [0x0D, 0x10, 0x03]))
        (fresh True)) =
     Some ([(True, False, True, False), (False, False, True, False),
            (False, False, False, False)], False)"
proof
  show "map_option (\<lambda>r. (drop 9 (fst r), fst (got_new_VTG_data (snd r))))
     (feed_object (test_platform False)
        (at_time 7 (ascii ''$GPVTG*52'' @ [0x0D, 0xBF, 0xF4, 0x0D, 0x10, 0x03])) (fresh False)) =
     Some ([(True, False, True, False), (False, False, True, False), (False, False, True, False),
            (False, False, True, False), (False, False, True, False),
            (False, False, False, False)], False)"
    by code_simp
  show "map_option (\<lambda>r. (drop 265 (fst r), fst (got_new_VTG_data (snd r))))
     (feed_object (test_platform True)
        (at_time 7 (replicate 255 0xFF @ [0xB6] @ ascii ''$GPVTG*52'' @ [0x0D, 0x10, 0x03]))
        (fresh True)) =
     Some ([(True, False, True, False), (False, False, True, False),
            (False, False, False, False)], False)"
    by code_simp
qed

text \<open>
  Claim C9 fails on the code. A passed checksum writes only the group of its sentence type
  (lemma \<open>decode_effect\<close>, for every call that stays inside the term buffer), and the
  hemisphere letter changes only the sign of the latitude (lemma \<open>hemisphere_flip\<close>). But
  the label \<^verbatim>\<open>case 3\<close> of \<^verbatim>\<open>decode\<close> can commit one type and write to another group
  in the same call: with two bytes buffered, the second 16, the byte 3 tests the frame sum
  on \<^verbatim>\<open>term[0]\<close> and \<^verbatim>\<open>term[-1]\<close>, stores 0 in \<^verbatim>\<open>term[-1]\<close>, the flag
  \<^verbatim>\<open>new_XTE_data\<close>, and then runs the checksum comparison of the sentence in progress.
  Below, a newly constructed decoder reads a valid XTE sentence and then the start of a
  VTG sentence that ends in such a trailer: the call for the byte 3 returns true, having
  committed VTG, and has cleared the flag of the XTE group. The first stream is for
  unsigned \<^verbatim>\<open>char\<close>, the second for signed \<^verbatim>\<open>char\<close> and a 16-bit \<^verbatim>\<open>int\<close>. Each
  entry shown is the result of a call with the flags of GGA, VTG and XTE after it, from the
  call that ends the XTE sentence on.
\<close>

theorem etx_commit_clears_other_flag:
  "map_option (\<lambda>r. (drop 19 (fst r), sentence_type (snd r), xte (snd r), last_XTE_fix (snd r),
                     last_VTG_fix (snd r)))
     (feed_object (test_platform False)
        (at_time 7 (ascii ''$GPXTE,A,A,7,L,N*47'' @ [0x0D, 0x24, 0xCD, 0xBF]) @
         at_time 8 (ascii ''GPVTG,'' @ [0xB3, 0x10, 0x03])) (fresh False)) =
     Some ((True, False, False, True) # replicate 11 (False, False, False, True) @
           [(True, False, True, False)], VTG, 7, 7, 8) \<and>
   map_option (\<lambda>r. (drop 263 (fst r), sentence_type (snd r)))
     (feed_object (test_platform True)
        (at_time 7 (replicate 253 0xFF @ [0x5F] @ ascii ''$GPXTE*5E'' @ [0x0D] @
                    ascii ''$GPVTG,p,2'' @ [0x10, 0x03])) (fresh True)) =
     Some ((True, False, False, True) # replicate 11 (False, False, False, True) @
           [(True, False, True, False)], VTG)"
proof
  show "map_option (\<lambda>r. (drop 19 (fst r), sentence_type (snd r), xte (snd r), last_XTE_fix (snd r),
                     last_VTG_fix (snd r)))
     (feed_object (test_platform False)
        (at_time 7 (ascii ''$GPXTE,A,A,7,L,N*47'' @ [0x0D, 0x24, 0xCD, 0xBF]) @
         at_time 8 (ascii ''GPVTG,'' @ [0xB3, 0x10, 0x03])) (fresh False)) =
     Some ((True, False, False, True) # replicate 11 (False, False, False, True) @
           [(True, False, True, False)], VTG, 7, 7, 8)"
    by code_simp
  show "map_option (\<lambda>r. (drop 263 (fst r), sentence_type (snd r)))
     (feed_object (test_platform True)
        (at_time 7 (replicate 253 0xFF @ [0x5F] @ ascii ''$GPXTE*5E'' @ [0x0D] @
                    ascii ''$GPVTG,p,2'' @ [0x10, 0x03])) (fresh True)) =
     Some ((True, False, False, True) # replicate 11 (False, False, False, True) @
           [(True, False, True, False)], VTG)"
    by code_simp
qed

text \<open>
  Claim C10 fails on the code. The label \<^verbatim>\<open>case 3\<close> of \<^verbatim>\<open>decode\<close> is reached with
  any \<^verbatim>\<open>term_offset\<close>: fed the byte 3 first, a newly constructed decoder reads
  \<^verbatim>\<open>term[-1]\<close>; fed 16 and then 3, it finds \<^verbatim>\<open>term[0] == 16\<close> and reads
  \<^verbatim>\<open>term[-1]\<close> and \<^verbatim>\<open>term[-2]\<close>. In the model the access outside the buffer is the
  result \<open>None\<close>.
\<close>

theorem etx_reads_before_the_buffer:
  "decode P now 3 (FarmGPS_init P m) = None \<and>
   feed (test_platform sg) [(16, n1), (3, n2)] (fresh sg) = None"
proof
  show "decode P now 3 (FarmGPS_init P m) = None"
    by (rule decode_etx_at_0) (simp add: FarmGPS_init_def GPS_NO_STATS_def)
  show "feed (test_platform sg) [(16, n1), (3, n2)] (fresh sg) = None"
    by (simp add: fresh_def FarmGPS_init_def GPS_NO_STATS_def blank_memory_def decode_def
        ordinary_def trimble_end_def wr_def rd_def TERM_SIZE_def test_platform_def Let_def)
qed

end
